theory Spec2Isabelle
  imports Complex_Main "HOL-Library.Word" "HOL-Library.Multiset"
begin

section \<open>The parameter table of the piecewise linear two-phase material law\<close>

text \<open>
  The source is the class template \<open>PiecewiseLinearTwoPhaseMaterialParams<TraitsT, VectorT>\<close>
  and the free function \<open>make_view\<close> of
  \<open>opm/material/fluidmatrixinteractions/PiecewiseLinearTwoPhaseMaterialParams.hpp\<close>.

  \<^item> \<open>Scalar\<close> is modelled by the real numbers (the spec speaks of sequences of real
    values); the only operation the class applies to a scalar is the comparison \<open>>\<close>.
    A floating point NaN, on which \<open>>\<close> is not a linear order, is outside the model.
  \<^item> \<open>ValueVector\<close> is a list of scalars. A view (\<open>gpuView<const Scalar>\<close>) is
    modelled by the list of the elements it refers to; no claim below depends on a write
    through the storage that a view shares with its source.
  \<^item> The template argument \<open>VectorT\<close> decides the \<open>if constexpr\<close> of
    \<open>swapOrderIfPossibleThrowOtherwise_\<close>. It is the explicit argument \<open>storage\<close> of
    every function that depends on it: \<open>Owning\<close> when neither the container type nor its
    element type is \<open>const\<close> (the default \<open>std::vector<Scalar>\<close>), \<open>View\<close>
    otherwise.
  \<^item> A member function returns \<open>error + 'a\<close>: \<open>Inl\<close> is an exception, a failed
    assertion or a read outside a sequence (undefined behaviour in C++), \<open>Inr\<close> the
    normal return. Functions that run the swap loop return an \<open>option\<close> of that:
    \<open>None\<close> is a call that does not return. The state in which an exception leaves the
    object is not modelled.
  \<^item> \<open>size_t\<close> has more than 32 bits; sizes and indices of that type are natural
    numbers.
  \<^item> Names of the source that end in an underscore carry a prime after it.
\<close>

type_synonym Scalar = real
type_synonym ValueVector = "Scalar list"

datatype error = NotFinalized | AlreadyFinalized | LogicError | OutOfBounds | AssertionFailed

datatype storage = Owning | View

subsection \<open>The finalize guard\<close>

datatype guard = Unfinalized | Finalized

text \<open>
  Modelled from the spec: the base class \<open>EnsureFinalized\<close>
  (\<open>opm/material/common/EnsureFinalized.hpp\<close>) is not among the sources. The spec
  describes it as a collaborator "providing not yet finalized and already finalized state
  tracking"; a freshly constructed object is not yet finalized.
\<close>

definition EnsureFinalized_ctor :: guard where
  "EnsureFinalized_ctor = Unfinalized"

text \<open>
  Modelled from the spec: \<open>EnsureFinalized::finalize\<close>, not among the sources. The spec:
  "Marks the object as finalized (subsequent read accessors are now permitted; a guard
  fails if invoked a second time or if reads occur without this having been called)".
\<close>

definition EnsureFinalized_finalize :: "guard \<Rightarrow> error + guard" where
  "EnsureFinalized_finalize g =
     (case g of Unfinalized \<Rightarrow> Inr Finalized | Finalized \<Rightarrow> Inl AlreadyFinalized)"

text \<open>
  Modelled from the spec: \<open>EnsureFinalized::check\<close>, not among the sources. The spec:
  "a check operation that fails loudly if reads occur pre-finalization".
\<close>

definition EnsureFinalized_check :: "guard \<Rightarrow> error + unit" where
  "EnsureFinalized_check g =
     (case g of Unfinalized \<Rightarrow> Inl NotFinalized | Finalized \<Rightarrow> Inr ())"

subsection \<open>The class\<close>

record PiecewiseLinearTwoPhaseMaterialParams =
  ensureFinalized :: guard
  SwPcwnSamples_' :: ValueVector
  SwKrwSamples_' :: ValueVector
  SwKrnSamples_' :: ValueVector
  pcwnSamples_' :: ValueVector
  krwSamples_' :: ValueVector
  krnSamples_' :: ValueVector

text \<open>The default constructor: the guard of the base class and six empty sequences.\<close>

definition Params_default :: PiecewiseLinearTwoPhaseMaterialParams where
  "Params_default =
     \<lparr>ensureFinalized = EnsureFinalized_ctor,
      SwPcwnSamples_' = [], SwKrwSamples_' = [], SwKrnSamples_' = [],
      pcwnSamples_' = [], krwSamples_' = [], krnSamples_' = []\<rparr>"

text \<open>
  The member initialiser list of the six-argument constructor, that is the object as it is
  when the constructor's body starts.
\<close>

definition Params_init ::
  "ValueVector \<Rightarrow> ValueVector \<Rightarrow> ValueVector \<Rightarrow> ValueVector \<Rightarrow> ValueVector \<Rightarrow> ValueVector
   \<Rightarrow> PiecewiseLinearTwoPhaseMaterialParams" where
  "Params_init SwPcwn pcwn SwKrw krw SwKrn krn =
     \<lparr>ensureFinalized = EnsureFinalized_ctor,
      SwPcwnSamples_' = SwPcwn, SwKrwSamples_' = SwKrw, SwKrnSamples_' = SwKrn,
      pcwnSamples_' = pcwn, krwSamples_' = krw, krnSamples_' = krn\<rparr>"

subsection \<open>Sequencing\<close>

text \<open>
  Statements in sequence: the next statement runs on the value of the previous one; an
  exception and a call that does not return end the sequence.
\<close>

definition andThen ::
  "(error + 'a) option \<Rightarrow> ('a \<Rightarrow> (error + 'b) option) \<Rightarrow> (error + 'b) option" where
  "andThen r k = (case r of None \<Rightarrow> None | Some (Inl e) \<Rightarrow> Some (Inl e) | Some (Inr a) \<Rightarrow> k a)"

subsection \<open>Reading the ends of a sequence\<close>

text \<open>
  \<open>front()\<close> and \<open>back()\<close> of an empty sequence are undefined behaviour in the source;
  the model (\<open>frontOf\<close>, \<open>backOf\<close>) returns \<open>OutOfBounds\<close>.
\<close>

definition frontOf :: "ValueVector \<Rightarrow> error + Scalar" where
  "frontOf v = (case v of [] \<Rightarrow> Inl OutOfBounds | x # _ \<Rightarrow> Inr x)"

definition backOf :: "ValueVector \<Rightarrow> error + Scalar" where
  "backOf v = (if v = [] then Inl OutOfBounds else Inr (last v))"

subsection \<open>Reverting the order\<close>

text \<open>
  The loop of \<open>swapOrderIfPossibleThrowOtherwise_\<close>. The counter \<open>origSampleIdx\<close> is an
  \<open>unsigned\<close>, a 32 bit word that wraps around; it is compared with
  \<open>swValues.size() / 2\<close> as a \<open>size_t\<close>. Inside the loop
  \<open>swValues.size() - origSampleIdx - 1\<close> does not underflow, and both indices are inside
  \<open>swValues\<close>; they are outside \<open>values\<close> when that sequence is shorter.
\<close>

partial_function (option) swap_loop ::
  "32 word \<Rightarrow> ValueVector \<Rightarrow> ValueVector \<Rightarrow> (error + ValueVector \<times> ValueVector) option"
where
  "swap_loop origSampleIdx swValues vals =
     (if unat origSampleIdx < length swValues div 2 then
        (let newSampleIdx = length swValues - unat origSampleIdx - 1 in
         if unat origSampleIdx < length vals \<and> newSampleIdx < length vals then
           swap_loop (origSampleIdx + 1)
             (swValues[unat origSampleIdx := swValues ! newSampleIdx,
                       newSampleIdx := swValues ! unat origSampleIdx])
             (vals[unat origSampleIdx := vals ! newSampleIdx,
                   newSampleIdx := vals ! unat origSampleIdx])
         else Some (Inl OutOfBounds))
      else Some (Inr (swValues, vals)))"

text \<open>
  \<open>OPM_THROW(std::logic_error, ...)\<close> is the error \<open>LogicError\<close>. The branch of the
  \<open>if constexpr\<close> is chosen by the storage.
\<close>

definition swapOrderIfPossibleThrowOtherwise_' ::
  "storage \<Rightarrow> ValueVector \<Rightarrow> ValueVector \<Rightarrow> (error + ValueVector \<times> ValueVector) option" where
  "swapOrderIfPossibleThrowOtherwise_' m swValues vals =
     andThen (Some (frontOf swValues)) (\<lambda>f.
     andThen (Some (backOf vals)) (\<lambda>b.
       if f > b then
         (case m of
            Owning \<Rightarrow> swap_loop 0 swValues vals
          | View \<Rightarrow> Some (Inl LogicError))
       else Some (Inr (swValues, vals))))"

text \<open>
  One of the three statements of \<open>finalize\<close>:
  \<open>if (sw.front() > sw.back()) swapOrderIfPossibleThrowOtherwise_(sw, values);\<close>
\<close>

definition revertIfReversed ::
  "storage \<Rightarrow> ValueVector \<Rightarrow> ValueVector \<Rightarrow> (error + ValueVector \<times> ValueVector) option" where
  "revertIfReversed m swValues vals =
     andThen (Some (frontOf swValues)) (\<lambda>f.
     andThen (Some (backOf swValues)) (\<lambda>b.
       if f > b then swapOrderIfPossibleThrowOtherwise_' m swValues vals
       else Some (Inr (swValues, vals))))"

text \<open>The three statements of \<open>finalize\<close> that follow the call of the guard.\<close>

definition revertSamplingPoints ::
  "storage \<Rightarrow> PiecewiseLinearTwoPhaseMaterialParams
   \<Rightarrow> (error + PiecewiseLinearTwoPhaseMaterialParams) option" where
  "revertSamplingPoints m p =
     andThen (revertIfReversed m (SwPcwnSamples_' p) (pcwnSamples_' p)) (\<lambda>(sw1, v1).
     andThen (revertIfReversed m (SwKrwSamples_' p) (krwSamples_' p)) (\<lambda>(sw2, v2).
     andThen (revertIfReversed m (SwKrnSamples_' p) (krnSamples_' p)) (\<lambda>(sw3, v3).
       Some (Inr (p\<lparr>SwPcwnSamples_' := sw1, pcwnSamples_' := v1,
                    SwKrwSamples_' := sw2, krwSamples_' := v2,
                    SwKrnSamples_' := sw3, krnSamples_' := v3\<rparr>)))))"

definition finalize ::
  "storage \<Rightarrow> PiecewiseLinearTwoPhaseMaterialParams
   \<Rightarrow> (error + PiecewiseLinearTwoPhaseMaterialParams) option" where
  "finalize m p =
     andThen (Some (EnsureFinalized_finalize (ensureFinalized p))) (\<lambda>g.
       revertSamplingPoints m (p\<lparr>ensureFinalized := g\<rparr>))"

text \<open>The six-argument constructor: the member initialisers, then \<open>finalize()\<close>.\<close>

definition Params_ctor ::
  "storage \<Rightarrow> ValueVector \<Rightarrow> ValueVector \<Rightarrow> ValueVector \<Rightarrow> ValueVector \<Rightarrow> ValueVector
   \<Rightarrow> ValueVector \<Rightarrow> (error + PiecewiseLinearTwoPhaseMaterialParams) option" where
  "Params_ctor m SwPcwn pcwn SwKrw krw SwKrn krn =
     finalize m (Params_init SwPcwn pcwn SwKrw krw SwKrn krn)"

subsection \<open>The read accessors\<close>

definition guarded :: "PiecewiseLinearTwoPhaseMaterialParams \<Rightarrow> 'a \<Rightarrow> error + 'a" where
  "guarded p v = (case EnsureFinalized_check (ensureFinalized p) of Inl e \<Rightarrow> Inl e | Inr _ \<Rightarrow> Inr v)"

definition SwKrwSamples :: "PiecewiseLinearTwoPhaseMaterialParams \<Rightarrow> error + ValueVector" where
  "SwKrwSamples p = guarded p (SwKrwSamples_' p)"

definition SwKrnSamples :: "PiecewiseLinearTwoPhaseMaterialParams \<Rightarrow> error + ValueVector" where
  "SwKrnSamples p = guarded p (SwKrnSamples_' p)"

definition SwPcwnSamples :: "PiecewiseLinearTwoPhaseMaterialParams \<Rightarrow> error + ValueVector" where
  "SwPcwnSamples p = guarded p (SwPcwnSamples_' p)"

definition pcwnSamples :: "PiecewiseLinearTwoPhaseMaterialParams \<Rightarrow> error + ValueVector" where
  "pcwnSamples p = guarded p (pcwnSamples_' p)"

definition krwSamples :: "PiecewiseLinearTwoPhaseMaterialParams \<Rightarrow> error + ValueVector" where
  "krwSamples p = guarded p (krwSamples_' p)"

definition krnSamples :: "PiecewiseLinearTwoPhaseMaterialParams \<Rightarrow> error + ValueVector" where
  "krnSamples p = guarded p (krnSamples_' p)"

subsection \<open>The setters\<close>

text \<open>
  \<open>v.resize(n)\<close> keeps the first \<open>n\<close> elements and fills up with zeros;
  \<open>std::copy(src.begin(), src.end(), dst.begin())\<close> overwrites the first elements of
  \<open>dst\<close>. A setter asserts that its two arguments have the same size, so the copy stays
  inside the resized member.
\<close>

definition resize :: "nat \<Rightarrow> ValueVector \<Rightarrow> ValueVector" where
  "resize n v = take n v @ replicate (n - length v) 0"

definition copy_to :: "ValueVector \<Rightarrow> ValueVector \<Rightarrow> ValueVector" where
  "copy_to src dst = src @ drop (length src) dst"

definition setPcnwSamples ::
  "ValueVector \<Rightarrow> ValueVector \<Rightarrow> PiecewiseLinearTwoPhaseMaterialParams
   \<Rightarrow> error + PiecewiseLinearTwoPhaseMaterialParams" where
  "setPcnwSamples SwValues vals p =
     (if length SwValues \<noteq> length vals then Inl AssertionFailed
      else let n = length SwValues in
        Inr (p\<lparr>SwPcwnSamples_' := copy_to SwValues (resize n (SwPcwnSamples_' p)),
               pcwnSamples_' := copy_to vals (resize n (pcwnSamples_' p))\<rparr>))"

definition setKrwSamples ::
  "ValueVector \<Rightarrow> ValueVector \<Rightarrow> PiecewiseLinearTwoPhaseMaterialParams
   \<Rightarrow> error + PiecewiseLinearTwoPhaseMaterialParams" where
  "setKrwSamples SwValues vals p =
     (if length SwValues \<noteq> length vals then Inl AssertionFailed
      else let n = length SwValues in
        Inr (p\<lparr>SwKrwSamples_' := copy_to SwValues (resize n (SwKrwSamples_' p)),
               krwSamples_' := copy_to vals (resize n (krwSamples_' p))\<rparr>))"

definition setKrnSamples ::
  "ValueVector \<Rightarrow> ValueVector \<Rightarrow> PiecewiseLinearTwoPhaseMaterialParams
   \<Rightarrow> error + PiecewiseLinearTwoPhaseMaterialParams" where
  "setKrnSamples SwValues vals p =
     (if length SwValues \<noteq> length vals then Inl AssertionFailed
      else let n = length SwValues in
        Inr (p\<lparr>SwKrnSamples_' := copy_to SwValues (resize n (SwKrnSamples_' p)),
               krnSamples_' := copy_to vals (resize n (krnSamples_' p))\<rparr>))"

subsection \<open>The view of a table\<close>

text \<open>
  Modelled from the spec: the overload of \<open>make_view\<close> for one sequence (of the GPU
  library) is not among the sources. The spec: "construct a reference/view over the owning
  sequence's memory (no copy)". The view shows the elements of the sequence.
\<close>

definition make_view_of :: "ValueVector \<Rightarrow> ValueVector" where
  "make_view_of v = v"

text \<open>
  \<open>make_view\<close> reads the six sequences through the accessors of its argument and hands
  their views to the six-argument constructor of the class over the view type.
\<close>

definition make_view ::
  "PiecewiseLinearTwoPhaseMaterialParams
   \<Rightarrow> (error + PiecewiseLinearTwoPhaseMaterialParams) option" where
  "make_view params =
     andThen (Some (SwPcwnSamples params)) (\<lambda>a.
     andThen (Some (pcwnSamples params)) (\<lambda>b.
     andThen (Some (SwKrwSamples params)) (\<lambda>c.
     andThen (Some (krwSamples params)) (\<lambda>d.
     andThen (Some (SwKrnSamples params)) (\<lambda>e.
     andThen (Some (krnSamples params)) (\<lambda>f.
       Params_ctor View (make_view_of a) (make_view_of b) (make_view_of c)
         (make_view_of d) (make_view_of e) (make_view_of f)))))))"

subsection \<open>Predicates of the statements\<close>

text \<open>Within each pair the two sequences have the same length.\<close>

definition pairs_aligned :: "PiecewiseLinearTwoPhaseMaterialParams \<Rightarrow> bool" where
  "pairs_aligned p \<longleftrightarrow>
     length (SwPcwnSamples_' p) = length (pcwnSamples_' p) \<and>
     length (SwKrwSamples_' p) = length (krwSamples_' p) \<and>
     length (SwKrnSamples_' p) = length (krnSamples_' p)"

text \<open>The three saturation sequences are not empty.\<close>

definition nonempty_sw :: "PiecewiseLinearTwoPhaseMaterialParams \<Rightarrow> bool" where
  "nonempty_sw p \<longleftrightarrow>
     SwPcwnSamples_' p \<noteq> [] \<and> SwKrwSamples_' p \<noteq> [] \<and> SwKrnSamples_' p \<noteq> []"

text \<open>All six sequences are not empty.\<close>

definition all_nonempty :: "PiecewiseLinearTwoPhaseMaterialParams \<Rightarrow> bool" where
  "all_nonempty p \<longleftrightarrow>
     SwPcwnSamples_' p \<noteq> [] \<and> pcwnSamples_' p \<noteq> [] \<and>
     SwKrwSamples_' p \<noteq> [] \<and> krwSamples_' p \<noteq> [] \<and>
     SwKrnSamples_' p \<noteq> [] \<and> krnSamples_' p \<noteq> []"

text \<open>The loop counter reaches half the size of each saturation sequence.\<close>

definition counter_fits :: "PiecewiseLinearTwoPhaseMaterialParams \<Rightarrow> bool" where
  "counter_fits p \<longleftrightarrow>
     length (SwPcwnSamples_' p) div 2 < 2 ^ 32 \<and>
     length (SwKrwSamples_' p) div 2 < 2 ^ 32 \<and>
     length (SwKrnSamples_' p) div 2 < 2 ^ 32"

text \<open>
  The two tests that lead to the reversal of a pair: the test of \<open>finalize\<close> and the
  test of \<open>swapOrderIfPossibleThrowOtherwise_\<close>.
\<close>

definition triggers :: "ValueVector \<Rightarrow> ValueVector \<Rightarrow> bool" where
  "triggers swValues vals \<longleftrightarrow> hd swValues > last swValues \<and> hd swValues > last vals"

text \<open>
  What \<open>swapOrderIfPossibleThrowOtherwise_\<close> makes of a pair on owning storage, and what
  the three statements of \<open>finalize\<close> make of a table there.
\<close>

definition revertedPair :: "ValueVector \<Rightarrow> ValueVector \<Rightarrow> ValueVector \<times> ValueVector" where
  "revertedPair swValues vals =
     (if triggers swValues vals then (rev swValues, rev vals) else (swValues, vals))"

definition reverted ::
  "PiecewiseLinearTwoPhaseMaterialParams \<Rightarrow> PiecewiseLinearTwoPhaseMaterialParams" where
  "reverted p =
     p\<lparr>SwPcwnSamples_' := fst (revertedPair (SwPcwnSamples_' p) (pcwnSamples_' p)),
       pcwnSamples_' := snd (revertedPair (SwPcwnSamples_' p) (pcwnSamples_' p)),
       SwKrwSamples_' := fst (revertedPair (SwKrwSamples_' p) (krwSamples_' p)),
       krwSamples_' := snd (revertedPair (SwKrwSamples_' p) (krwSamples_' p)),
       SwKrnSamples_' := fst (revertedPair (SwKrnSamples_' p) (krnSamples_' p)),
       krnSamples_' := snd (revertedPair (SwKrnSamples_' p) (krnSamples_' p))\<rparr>"

text \<open>Some pair of the table passes both tests.\<close>

definition any_triggers :: "PiecewiseLinearTwoPhaseMaterialParams \<Rightarrow> bool" where
  "any_triggers p \<longleftrightarrow>
     triggers (SwPcwnSamples_' p) (pcwnSamples_' p) \<or>
     triggers (SwKrwSamples_' p) (krwSamples_' p) \<or>
     triggers (SwKrnSamples_' p) (krnSamples_' p)"

text \<open>
  The state of a sequence inside the loop: the first \<open>i\<close> and the last \<open>i\<close> elements
  have changed places with their mirror images.
\<close>

definition mirrored :: "nat \<Rightarrow> 'a list \<Rightarrow> 'a list" where
  "mirrored i xs =
     map (\<lambda>k. if k < i \<or> length xs - i \<le> k then xs ! (length xs - 1 - k) else xs ! k)
       [0..<length xs]"

text \<open>
  The table of a caller that constructs by default and calls the three setters.
\<close>

definition populate ::
  "ValueVector \<Rightarrow> ValueVector \<Rightarrow> ValueVector \<Rightarrow> ValueVector \<Rightarrow> ValueVector \<Rightarrow> ValueVector
   \<Rightarrow> error + PiecewiseLinearTwoPhaseMaterialParams" where
  "populate SwPcwn pcwn SwKrw krw SwKrn krn =
     (case setPcnwSamples SwPcwn pcwn Params_default of Inl x \<Rightarrow> Inl x | Inr p1 \<Rightarrow>
      case setKrwSamples SwKrw krw p1 of Inl x \<Rightarrow> Inl x | Inr p2 \<Rightarrow>
      setKrnSamples SwKrn krn p2)"

section \<open>The loop reverses\<close>

lemma length_mirrored [simp]: "length (mirrored i xs) = length xs"
  by (simp add: mirrored_def)

lemma mirrored_0: "mirrored 0 xs = xs"
  by (rule nth_equalityI) (simp_all add: mirrored_def)

lemma mirrored_half: "mirrored (length xs div 2) xs = rev xs"
proof (rule nth_equalityI)
  show "length (mirrored (length xs div 2) xs) = length (rev xs)" by simp
next
  fix k assume "k < length (mirrored (length xs div 2) xs)"
  then have k: "k < length xs" by simp
  have "\<not> (k < length xs div 2 \<or> length xs - length xs div 2 \<le> k) \<Longrightarrow> length xs - 1 - k = k"
    using k by arith
  then show "mirrored (length xs div 2) xs ! k = rev xs ! k"
    using k by (auto simp add: mirrored_def rev_nth)
qed

lemma nth_mirrored:
  "k < length xs \<Longrightarrow>
     mirrored i xs ! k =
       (if k < i \<or> length xs - i \<le> k then xs ! (length xs - 1 - k) else xs ! k)"
  by (simp add: mirrored_def)

lemma mirrored_step:
  assumes "i < length xs div 2"
  shows "(mirrored i xs)[i := mirrored i xs ! (length xs - i - 1),
            length xs - i - 1 := mirrored i xs ! i] = mirrored (Suc i) xs"
proof (rule nth_equalityI)
  show "length ((mirrored i xs)[i := mirrored i xs ! (length xs - i - 1),
            length xs - i - 1 := mirrored i xs ! i]) = length (mirrored (Suc i) xs)"
    by simp
next
  fix k
  assume "k < length ((mirrored i xs)[i := mirrored i xs ! (length xs - i - 1),
            length xs - i - 1 := mirrored i xs ! i])"
  then have k: "k < length xs" by simp
  define j where "j = length xs - i - 1"
  from assms have i: "i < length xs" "j < length xs" "i \<noteq> j" "i < j"
    "length xs - 1 - i = j" "length xs - 1 - j = i" "length xs - i = Suc j"
    "length xs - Suc i = j"
    unfolding j_def by arith+
  have mi: "mirrored i xs ! i = xs ! i" and mj: "mirrored i xs ! j = xs ! j"
    using i by (simp_all add: nth_mirrored)
  have lhs: "(mirrored i xs)[i := mirrored i xs ! j, j := mirrored i xs ! i] ! k =
      (if k = j then xs ! i else if k = i then xs ! j else mirrored i xs ! k)"
    using k i by (simp add: nth_list_update mi mj)
  have rhs: "mirrored (Suc i) xs ! k =
      (if k = j then xs ! i else if k = i then xs ! j else mirrored i xs ! k)"
  proof -
    consider "k = j" | "k = i" | "k \<noteq> i" "k \<noteq> j" by blast
    then show ?thesis
    proof cases
      case 1
      then show ?thesis using k i by (simp add: nth_mirrored)
    next
      case 2
      then show ?thesis using k i by (simp add: nth_mirrored)
    next
      case 3
      then have "(k < Suc i \<or> length xs - Suc i \<le> k) = (k < i \<or> length xs - i \<le> k)"
        using i by arith
      then show ?thesis using 3 k by (simp add: nth_mirrored)
    qed
  qed
  show "(mirrored i xs)[i := mirrored i xs ! (length xs - i - 1),
            length xs - i - 1 := mirrored i xs ! i] ! k = mirrored (Suc i) xs ! k"
    using lhs rhs unfolding j_def by simp
qed

lemma swap_loop_mirrored:
  assumes "length ys = length xs" and "length xs div 2 < 2 ^ 32"
    and "unat i \<le> length xs div 2"
  shows "swap_loop i (mirrored (unat i) xs) (mirrored (unat i) ys) = Some (Inr (rev xs, rev ys))"
  using assms(3)
proof (induction "length xs div 2 - unat i" arbitrary: i)
  case 0
  then have "unat i = length xs div 2" by simp
  then show ?case
    using assms(1) mirrored_half [of xs] mirrored_half [of ys]
    by (subst swap_loop.simps) simp
next
  case (Suc d)
  then have lt: "unat i < length xs div 2" by simp
  with assms(2) have "unat i + 1 < 2 ^ 32" by simp
  then have u: "unat (i + 1) = Suc (unat i)"
    by (simp add: unat_word_ariths)
  have "swap_loop (i + 1) (mirrored (unat (i + 1)) xs) (mirrored (unat (i + 1)) ys)
          = Some (Inr (rev xs, rev ys))"
    using Suc lt u by (intro Suc.hyps(1)) simp_all
  moreover have "unat i < length ys" "length xs - unat i - 1 < length ys"
    using lt assms(1) by arith+
  ultimately show ?case
    using lt assms(1) u mirrored_step [of "unat i" xs] mirrored_step [of "unat i" ys]
    by (subst swap_loop.simps) (simp add: Let_def)
qed

lemma swap_loop_rev:
  assumes "length ys = length xs" and "length xs div 2 < 2 ^ 32"
  shows "swap_loop 0 xs ys = Some (Inr (rev xs, rev ys))"
  using swap_loop_mirrored [OF assms, of 0] by (simp add: mirrored_0)

text \<open>Whenever the loop returns on sequences of one length, it returns sequences of that length.\<close>

lemma swap_loop_lengths_aux:
  assumes "swap_loop i xs ys = Some r"
  shows "length ys = length xs \<longrightarrow>
     (\<exists>xs' ys'. r = Inr (xs', ys') \<and> length xs' = length xs \<and> length ys' = length xs)"
proof (rule swap_loop.raw_induct
    [where P = "\<lambda>i xs ys r. length ys = length xs \<longrightarrow>
       (\<exists>xs' ys'. r = Inr (xs', ys') \<and> length xs' = length xs \<and> length ys' = length xs)",
     OF _ assms], goal_cases)
  case (1 f i xs ys r)
  show ?case
  proof
    assume len: "length ys = length xs"
    show "\<exists>xs' ys'. r = Inr (xs', ys') \<and> length xs' = length xs \<and> length ys' = length xs"
    proof (cases "unat i < length xs div 2")
      case True
      with len have "unat i < length ys \<and> length xs - unat i - 1 < length ys" by arith
      with True 1(2) have "f (i + 1)
             (xs[unat i := xs ! (length xs - unat i - 1), length xs - unat i - 1 := xs ! unat i])
             (ys[unat i := ys ! (length xs - unat i - 1), length xs - unat i - 1 := ys ! unat i])
           = Some r"
        by (simp add: Let_def)
      from 1(1) [OF this] len show ?thesis by simp
    next
      case False
      with 1(2) len show ?thesis by auto
    qed
  qed
qed

lemma swap_loop_lengths:
  assumes "swap_loop i xs ys = Some r" and "length ys = length xs"
  shows "\<exists>xs' ys'. r = Inr (xs', ys') \<and> length xs' = length xs \<and> length ys' = length xs"
  using swap_loop_lengths_aux [OF assms(1)] assms(2) by blast

section \<open>The statements of finalize\<close>

lemma andThen_simps [simp]:
  "andThen None k = None"
  "andThen (Some (Inl e)) k = Some (Inl e)"
  "andThen (Some (Inr a)) k = k a"
  by (simp_all add: andThen_def)

lemma frontOf_simps [simp]:
  "frontOf [] = Inl OutOfBounds"
  "v \<noteq> [] \<Longrightarrow> frontOf v = Inr (hd v)"
  by (cases v; simp add: frontOf_def)+

lemma backOf_simps [simp]:
  "backOf [] = Inl OutOfBounds"
  "v \<noteq> [] \<Longrightarrow> backOf v = Inr (last v)"
  by (simp_all add: backOf_def)

lemma revertIfReversed_empty: "revertIfReversed m [] vals = Some (Inl OutOfBounds)"
  by (simp add: revertIfReversed_def)

lemma revertIfReversed_Owning:
  assumes "sw \<noteq> []" and "length vals = length sw" and "length sw div 2 < 2 ^ 32"
  shows "revertIfReversed Owning sw vals = Some (Inr (revertedPair sw vals))"
proof -
  from assms have "vals \<noteq> []" by auto
  with assms show ?thesis
    by (simp add: revertIfReversed_def swapOrderIfPossibleThrowOtherwise_'_def revertedPair_def
        triggers_def swap_loop_rev)
qed

lemma revertIfReversed_View:
  assumes "sw \<noteq> []" and "length vals = length sw"
  shows "revertIfReversed View sw vals =
           (if triggers sw vals then Some (Inl LogicError) else Some (Inr (sw, vals)))"
proof -
  from assms have "vals \<noteq> []" by auto
  with assms show ?thesis
    by (simp add: revertIfReversed_def swapOrderIfPossibleThrowOtherwise_'_def triggers_def)
qed

lemma revertIfReversed_ascending:
  assumes "sw \<noteq> []" and "hd sw \<le> last sw"
  shows "revertIfReversed m sw vals = Some (Inr (sw, vals))"
  using assms by (simp add: revertIfReversed_def)

lemma revertIfReversed_sound:
  assumes "revertIfReversed m sw vals = Some r" and "sw \<noteq> []" and "length vals = length sw"
  shows "r = Inl LogicError \<or>
         (\<exists>sw' vals'. r = Inr (sw', vals') \<and> length sw' = length sw \<and> length vals' = length sw)"
proof -
  from assms have ne: "vals \<noteq> []" by auto
  show ?thesis
  proof (cases "triggers sw vals")
  case False
  with assms ne show ?thesis
    by (cases m) (auto simp add: revertIfReversed_def swapOrderIfPossibleThrowOtherwise_'_def
        triggers_def split: if_splits)
next
  case True
  show ?thesis
  proof (cases m)
    case View
    with True assms show ?thesis by (simp add: revertIfReversed_View)
  next
    case Owning
    with True assms ne have "swap_loop 0 sw vals = Some r"
      by (simp add: revertIfReversed_def swapOrderIfPossibleThrowOtherwise_'_def triggers_def)
    from swap_loop_lengths [OF this assms(3)] show ?thesis by blast
  qed
qed
qed

lemma revertSamplingPoints_Owning:
  assumes "pairs_aligned p" and "nonempty_sw p" and "counter_fits p"
  shows "revertSamplingPoints Owning p = Some (Inr (reverted p))"
  using assms
  by (simp add: revertSamplingPoints_def pairs_aligned_def nonempty_sw_def counter_fits_def
      revertIfReversed_Owning reverted_def split_beta)

lemma revertSamplingPoints_View:
  assumes "pairs_aligned p" and "nonempty_sw p"
  shows "revertSamplingPoints View p =
           (if any_triggers p then Some (Inl LogicError) else Some (Inr p))"
  using assms
  by (simp add: revertSamplingPoints_def pairs_aligned_def nonempty_sw_def any_triggers_def
      revertIfReversed_View)

lemma revertSamplingPoints_ascending:
  assumes "nonempty_sw p"
    and "hd (SwPcwnSamples_' p) \<le> last (SwPcwnSamples_' p)"
    and "hd (SwKrwSamples_' p) \<le> last (SwKrwSamples_' p)"
    and "hd (SwKrnSamples_' p) \<le> last (SwKrnSamples_' p)"
  shows "revertSamplingPoints m p = Some (Inr p)"
  using assms
  by (simp add: revertSamplingPoints_def nonempty_sw_def revertIfReversed_ascending)

lemma finalize_Unfinalized:
  assumes "ensureFinalized p = Unfinalized"
  shows "finalize m p = revertSamplingPoints m (p\<lparr>ensureFinalized := Finalized\<rparr>)"
  using assms by (simp add: finalize_def EnsureFinalized_finalize_def)

lemma finalize_Finalized:
  assumes "ensureFinalized p = Finalized"
  shows "finalize m p = Some (Inl AlreadyFinalized)"
  using assms by (simp add: finalize_def EnsureFinalized_finalize_def)

lemma pred_guard_update [simp]:
  "pairs_aligned (p\<lparr>ensureFinalized := g\<rparr>) = pairs_aligned p"
  "nonempty_sw (p\<lparr>ensureFinalized := g\<rparr>) = nonempty_sw p"
  "counter_fits (p\<lparr>ensureFinalized := g\<rparr>) = counter_fits p"
  "any_triggers (p\<lparr>ensureFinalized := g\<rparr>) = any_triggers p"
  by (simp_all add: pairs_aligned_def nonempty_sw_def counter_fits_def any_triggers_def)

section \<open>Whenever the loop returns\<close>

lemma swap_loop_keeps_lengths_aux:
  assumes "swap_loop i xs ys = Some r"
  shows "\<forall>xs' ys'. r = Inr (xs', ys') \<longrightarrow> length xs' = length xs \<and> length ys' = length ys"
proof (rule swap_loop.raw_induct
    [where P = "\<lambda>i xs ys r. \<forall>xs' ys'. r = Inr (xs', ys') \<longrightarrow>
        length xs' = length xs \<and> length ys' = length ys",
     OF _ assms], goal_cases)
  case (1 f i xs ys r)
  show ?case
  proof (cases "unat i < length xs div 2 \<and> unat i < length ys \<and> length xs - unat i - 1 < length ys")
    case True
    with 1(2) have "f (i + 1)
             (xs[unat i := xs ! (length xs - unat i - 1), length xs - unat i - 1 := xs ! unat i])
             (ys[unat i := ys ! (length xs - unat i - 1), length xs - unat i - 1 := ys ! unat i])
           = Some r"
      by (simp add: Let_def)
    from 1(1) [OF this] show ?thesis by simp
  next
    case False
    with 1(2) show ?thesis by (auto simp add: Let_def split: if_splits)
  qed
qed

lemma swap_loop_keeps_lengths:
  assumes "swap_loop i xs ys = Some (Inr (xs', ys'))"
  shows "length xs' = length xs" and "length ys' = length ys"
  using swap_loop_keeps_lengths_aux [OF assms] by simp_all



lemma andThen_Some:
  assumes "andThen r k = Some y"
  shows "(\<exists>e. r = Some (Inl e) \<and> y = Inl e) \<or> (\<exists>a. r = Some (Inr a) \<and> k a = Some y)"
  using assms by (auto simp add: andThen_def split: option.splits sum.splits)

lemma andThen_Inr:
  assumes "andThen r k = Some (Inr b)"
  shows "\<exists>a. r = Some (Inr a) \<and> k a = Some (Inr b)"
  using andThen_Some [OF assms] by auto

lemma revertIfReversed_lengths:
  assumes "revertIfReversed m sw vals = Some (Inr (sw', vals'))"
  shows "length sw' = length sw \<and> length vals' = length vals"
proof (cases "sw = []")
  case True
  with assms show ?thesis by (simp add: revertIfReversed_empty)
next
  case sw: False
  show ?thesis
  proof (cases "vals = []")
    case True
    with sw assms show ?thesis
      by (auto simp add: revertIfReversed_def swapOrderIfPossibleThrowOtherwise_'_def
          split: if_splits)
  next
    case False
    with sw assms show ?thesis
      by (cases m)
         (auto simp add: revertIfReversed_def swapOrderIfPossibleThrowOtherwise_'_def
          split: if_splits dest: swap_loop_keeps_lengths)
  qed
qed


lemma revertSamplingPoints_keeps:
  assumes "revertSamplingPoints m q = Some (Inr p)"
  shows "ensureFinalized p = ensureFinalized q"
    and "length (SwPcwnSamples_' p) = length (SwPcwnSamples_' q)"
    and "length (pcwnSamples_' p) = length (pcwnSamples_' q)"
    and "length (SwKrwSamples_' p) = length (SwKrwSamples_' q)"
    and "length (krwSamples_' p) = length (krwSamples_' q)"
    and "length (SwKrnSamples_' p) = length (SwKrnSamples_' q)"
    and "length (krnSamples_' p) = length (krnSamples_' q)"
proof -
  from assms obtain a1 where a1: "revertIfReversed m (SwPcwnSamples_' q) (pcwnSamples_' q) = Some (Inr a1)"
    and r1: "(case a1 of (sw1, v1) \<Rightarrow>
     andThen (revertIfReversed m (SwKrwSamples_' q) (krwSamples_' q)) (\<lambda>(sw2, v2).
     andThen (revertIfReversed m (SwKrnSamples_' q) (krnSamples_' q)) (\<lambda>(sw3, v3).
       Some (Inr (q\<lparr>SwPcwnSamples_' := sw1, pcwnSamples_' := v1,
                    SwKrwSamples_' := sw2, krwSamples_' := v2,
                    SwKrnSamples_' := sw3, krnSamples_' := v3\<rparr>))))) = Some (Inr p)"
    unfolding revertSamplingPoints_def by (blast dest: andThen_Inr)
  obtain sw1 v1 where p1: "a1 = (sw1, v1)" by (cases a1)
  from r1 p1 obtain a2 where a2: "revertIfReversed m (SwKrwSamples_' q) (krwSamples_' q) = Some (Inr a2)"
    and r2: "(case a2 of (sw2, v2) \<Rightarrow>
     andThen (revertIfReversed m (SwKrnSamples_' q) (krnSamples_' q)) (\<lambda>(sw3, v3).
       Some (Inr (q\<lparr>SwPcwnSamples_' := sw1, pcwnSamples_' := v1,
                    SwKrwSamples_' := sw2, krwSamples_' := v2,
                    SwKrnSamples_' := sw3, krnSamples_' := v3\<rparr>)))) = Some (Inr p)"
    by (auto dest: andThen_Inr)
  obtain sw2 v2 where p2: "a2 = (sw2, v2)" by (cases a2)
  from r2 p2 obtain a3 where a3: "revertIfReversed m (SwKrnSamples_' q) (krnSamples_' q) = Some (Inr a3)"
    and r3: "(case a3 of (sw3, v3) \<Rightarrow>
       Some (Inr (q\<lparr>SwPcwnSamples_' := sw1, pcwnSamples_' := v1,
                    SwKrwSamples_' := sw2, krwSamples_' := v2,
                    SwKrnSamples_' := sw3, krnSamples_' := v3\<rparr>))) = Some (Inr p)"
    by (auto dest: andThen_Inr)
  obtain sw3 v3 where p3: "a3 = (sw3, v3)" by (cases a3)
  from r3 p3 have p: "p = q\<lparr>SwPcwnSamples_' := sw1, pcwnSamples_' := v1,
                    SwKrwSamples_' := sw2, krwSamples_' := v2,
                    SwKrnSamples_' := sw3, krnSamples_' := v3\<rparr>" by simp
  note l1 = revertIfReversed_lengths [OF a1 [unfolded p1]]
    and l2 = revertIfReversed_lengths [OF a2 [unfolded p2]]
    and l3 = revertIfReversed_lengths [OF a3 [unfolded p3]]
  show "ensureFinalized p = ensureFinalized q" using p by simp
  show "length (SwPcwnSamples_' p) = length (SwPcwnSamples_' q)" using p l1 by simp
  show "length (pcwnSamples_' p) = length (pcwnSamples_' q)" using p l1 by simp
  show "length (SwKrwSamples_' p) = length (SwKrwSamples_' q)" using p l2 by simp
  show "length (krwSamples_' p) = length (krwSamples_' q)" using p l2 by simp
  show "length (SwKrnSamples_' p) = length (SwKrnSamples_' q)" using p l3 by simp
  show "length (krnSamples_' p) = length (krnSamples_' q)" using p l3 by simp
qed

section \<open>Whenever finalize returns\<close>


lemma finalize_returns:
  assumes "finalize m q = Some (Inr p)"
  shows "ensureFinalized q = Unfinalized"
    and "revertSamplingPoints m (q\<lparr>ensureFinalized := Finalized\<rparr>) = Some (Inr p)"
    and "ensureFinalized p = Finalized"
proof -
  show u: "ensureFinalized q = Unfinalized"
    using assms by (cases "ensureFinalized q") (simp_all add: finalize_Finalized)
  show r: "revertSamplingPoints m (q\<lparr>ensureFinalized := Finalized\<rparr>) = Some (Inr p)"
    using assms finalize_Unfinalized [OF u] by simp
  show "ensureFinalized p = Finalized"
    using revertSamplingPoints_keeps(1) [OF r] by simp
qed

lemma finalize_keeps_lengths:
  assumes "finalize m q = Some (Inr p)"
  shows "length (SwPcwnSamples_' p) = length (SwPcwnSamples_' q)"
    and "length (pcwnSamples_' p) = length (pcwnSamples_' q)"
    and "length (SwKrwSamples_' p) = length (SwKrwSamples_' q)"
    and "length (krwSamples_' p) = length (krwSamples_' q)"
    and "length (SwKrnSamples_' p) = length (SwKrnSamples_' q)"
    and "length (krnSamples_' p) = length (krnSamples_' q)"
  using revertSamplingPoints_keeps [OF finalize_returns(2) [OF assms]] by simp_all

lemma finalize_keeps_preds:
  assumes "finalize m q = Some (Inr p)"
  shows "pairs_aligned p = pairs_aligned q" and "nonempty_sw p = nonempty_sw q"
proof -
  note l = finalize_keeps_lengths [OF assms]
  show "pairs_aligned p = pairs_aligned q"
    by (simp add: pairs_aligned_def l)
  have "\<And>xs ys :: ValueVector. length xs = length ys \<Longrightarrow> (xs \<noteq> []) = (ys \<noteq> [])"
    by auto
  from this [OF l(1)] this [OF l(3)] this [OF l(5)]
  show "nonempty_sw p = nonempty_sw q"
    by (simp add: nonempty_sw_def)
qed

lemma accessors_Finalized:
  assumes "ensureFinalized p = Finalized"
  shows "SwPcwnSamples p = Inr (SwPcwnSamples_' p)" and "pcwnSamples p = Inr (pcwnSamples_' p)"
    and "SwKrwSamples p = Inr (SwKrwSamples_' p)" and "krwSamples p = Inr (krwSamples_' p)"
    and "SwKrnSamples p = Inr (SwKrnSamples_' p)" and "krnSamples p = Inr (krnSamples_' p)"
  using assms
  by (simp_all add: SwPcwnSamples_def pcwnSamples_def SwKrwSamples_def krwSamples_def
      SwKrnSamples_def krnSamples_def guarded_def EnsureFinalized_check_def)

lemma accessors_Unfinalized:
  assumes "ensureFinalized p = Unfinalized"
  shows "SwPcwnSamples p = Inl NotFinalized" and "pcwnSamples p = Inl NotFinalized"
    and "SwKrwSamples p = Inl NotFinalized" and "krwSamples p = Inl NotFinalized"
    and "SwKrnSamples p = Inl NotFinalized" and "krnSamples p = Inl NotFinalized"
  using assms
  by (simp_all add: SwPcwnSamples_def pcwnSamples_def SwKrwSamples_def krwSamples_def
      SwKrnSamples_def krnSamples_def guarded_def EnsureFinalized_check_def)

lemma Params_init_fields:
  "(Params_init (SwPcwnSamples_' p) (pcwnSamples_' p) (SwKrwSamples_' p) (krwSamples_' p)
      (SwKrnSamples_' p) (krnSamples_' p))\<lparr>ensureFinalized := ensureFinalized p\<rparr> = p"
  by (simp add: Params_init_def)

lemma Params_init_preds [simp]:
  "ensureFinalized (Params_init a b c d e f) = Unfinalized"
  "pairs_aligned (Params_init a b c d e f) \<longleftrightarrow>
     length a = length b \<and> length c = length d \<and> length e = length f"
  "nonempty_sw (Params_init a b c d e f) \<longleftrightarrow> a \<noteq> [] \<and> c \<noteq> [] \<and> e \<noteq> []"
  "any_triggers (Params_init a b c d e f) \<longleftrightarrow> triggers a b \<or> triggers c d \<or> triggers e f"
  by (simp_all add: Params_init_def EnsureFinalized_ctor_def pairs_aligned_def nonempty_sw_def
      any_triggers_def)

lemma make_view_Finalized:
  assumes "ensureFinalized p = Finalized"
  shows "make_view p =
     finalize View (Params_init (SwPcwnSamples_' p) (pcwnSamples_' p) (SwKrwSamples_' p)
       (krwSamples_' p) (SwKrnSamples_' p) (krnSamples_' p))"
  by (simp add: make_view_def accessors_Finalized [OF assms] Params_ctor_def make_view_of_def)

lemma make_view_Unfinalized:
  assumes "ensureFinalized p = Unfinalized"
  shows "make_view p = Some (Inl NotFinalized)"
  by (simp add: make_view_def accessors_Unfinalized [OF assms])

section \<open>What finalize returns is settled\<close>

text \<open>
  When the loop returns normally, its counter has not wrapped around and the saturation
  sequence is reversed, whatever the length of the other sequence. So a pair that
  \<open>revertIfReversed\<close> returns fails one of the two tests, on either storage.
\<close>

lemma swap_loop_normal_fits_aux:
  assumes "swap_loop i xs ys = Some r"
  shows "(\<exists>a. r = Inr a) \<longrightarrow> length xs div 2 < 2 ^ 32"
proof (rule swap_loop.raw_induct
    [where P = "\<lambda>i xs ys r. (\<exists>a. r = Inr a) \<longrightarrow> length xs div 2 < 2 ^ 32",
     OF _ assms], goal_cases)
  case (1 f i xs ys r)
  show ?case
  proof (cases "unat i < length xs div 2")
    case True
    show ?thesis
    proof (cases "unat i < length ys \<and> length xs - unat i - 1 < length ys")
      case inb: True
      with True 1(2) have "f (i + 1)
             (xs[unat i := xs ! (length xs - unat i - 1), length xs - unat i - 1 := xs ! unat i])
             (ys[unat i := ys ! (length xs - unat i - 1), length xs - unat i - 1 := ys ! unat i])
           = Some r"
        by (simp add: Let_def)
      from 1(1) [OF this] show ?thesis by simp
    next
      case False
      with True 1(2) show ?thesis by (auto simp add: Let_def)
    qed
  next
    case False
    have "unat i < 2 ^ 32" using unsigned_less [of i] by simp
    with False show ?thesis by simp
  qed
qed

lemma swap_loop_mirrored_sw:
  assumes "length xs div 2 < 2 ^ 32" and "unat i \<le> length xs div 2"
    and "swap_loop i (mirrored (unat i) xs) ys = Some (Inr (xs', ys'))"
  shows "xs' = rev xs"
  using assms(2,3)
proof (induction "length xs div 2 - unat i" arbitrary: i ys)
  case 0
  then have "unat i = length xs div 2" by simp
  with 0(3) mirrored_half [of xs] show ?case
    by (subst (asm) swap_loop.simps) simp
next
  case (Suc d)
  then have lt: "unat i < length xs div 2" by simp
  with assms(1) have "unat i + 1 < 2 ^ 32" by simp
  then have u: "unat (i + 1) = Suc (unat i)"
    by (simp add: unat_word_ariths)
  from Suc.prems(2) lt mirrored_step [of "unat i" xs] u
  have "unat i < length ys \<and> length xs - unat i - 1 < length ys \<and>
    swap_loop (i + 1) (mirrored (unat (i + 1)) xs)
      (ys[unat i := ys ! (length xs - unat i - 1), length xs - unat i - 1 := ys ! unat i])
    = Some (Inr (xs', ys'))"
    by (subst (asm) swap_loop.simps) (simp add: Let_def split: if_splits)
  then have rec: "swap_loop (i + 1) (mirrored (unat (i + 1)) xs)
      (ys[unat i := ys ! (length xs - unat i - 1), length xs - unat i - 1 := ys ! unat i])
    = Some (Inr (xs', ys'))" by simp
  have "d = length xs div 2 - unat (i + 1)" using Suc.hyps(2) u by simp
  moreover have "unat (i + 1) \<le> length xs div 2" using lt u by simp
  ultimately show ?case using rec by (rule Suc.hyps(1))
qed

lemma swap_loop_returns_sw:
  assumes "swap_loop 0 xs ys = Some (Inr (xs', ys'))"
  shows "xs' = rev xs"
proof -
  from swap_loop_normal_fits_aux [OF assms] have "length xs div 2 < 2 ^ 32" by simp
  from swap_loop_mirrored_sw [OF this, of 0 ys xs' ys'] assms show ?thesis
    by (simp add: mirrored_0)
qed

lemma revertIfReversed_settled:
  assumes "revertIfReversed m sw vals = Some (Inr (sw', vals'))"
  shows "revertIfReversed m' sw' vals' = Some (Inr (sw', vals')) \<and> \<not> triggers sw' vals'"
proof -
  from assms have sw: "sw \<noteq> []" by (auto simp add: revertIfReversed_empty)
  show ?thesis
  proof (cases "hd sw > last sw")
    case False
    with assms sw show ?thesis by (simp add: revertIfReversed_def triggers_def)
  next
    case True
    with assms sw have vals: "vals \<noteq> []"
      by (auto simp add: revertIfReversed_def swapOrderIfPossibleThrowOtherwise_'_def)
    show ?thesis
    proof (cases "hd sw > last vals")
      case False
      with True assms sw vals show ?thesis
        by (simp add: revertIfReversed_def swapOrderIfPossibleThrowOtherwise_'_def triggers_def)
    next
      case gate: True
      show ?thesis
      proof (cases m)
        case View
        with True gate assms sw vals show ?thesis
          by (simp add: revertIfReversed_def swapOrderIfPossibleThrowOtherwise_'_def)
      next
        case Owning
        with True gate assms sw vals have "swap_loop 0 sw vals = Some (Inr (sw', vals'))"
          by (simp add: revertIfReversed_def swapOrderIfPossibleThrowOtherwise_'_def)
        then have "sw' = rev sw" by (rule swap_loop_returns_sw)
        with True sw show ?thesis
          by (simp add: revertIfReversed_def hd_rev last_rev triggers_def)
      qed
    qed
  qed
qed

lemma revertSamplingPoints_InrE:
  assumes "revertSamplingPoints m q = Some (Inr p)"
  obtains sw1 v1 sw2 v2 sw3 v3 where
    "revertIfReversed m (SwPcwnSamples_' q) (pcwnSamples_' q) = Some (Inr (sw1, v1))"
    "revertIfReversed m (SwKrwSamples_' q) (krwSamples_' q) = Some (Inr (sw2, v2))"
    "revertIfReversed m (SwKrnSamples_' q) (krnSamples_' q) = Some (Inr (sw3, v3))"
    "p = q\<lparr>SwPcwnSamples_' := sw1, pcwnSamples_' := v1,
          SwKrwSamples_' := sw2, krwSamples_' := v2,
          SwKrnSamples_' := sw3, krnSamples_' := v3\<rparr>"
proof -
  from assms obtain a1 where a1: "revertIfReversed m (SwPcwnSamples_' q) (pcwnSamples_' q) = Some (Inr a1)"
    and r1: "(case a1 of (sw1, v1) \<Rightarrow>
     andThen (revertIfReversed m (SwKrwSamples_' q) (krwSamples_' q)) (\<lambda>(sw2, v2).
     andThen (revertIfReversed m (SwKrnSamples_' q) (krnSamples_' q)) (\<lambda>(sw3, v3).
       Some (Inr (q\<lparr>SwPcwnSamples_' := sw1, pcwnSamples_' := v1,
                    SwKrwSamples_' := sw2, krwSamples_' := v2,
                    SwKrnSamples_' := sw3, krnSamples_' := v3\<rparr>))))) = Some (Inr p)"
    unfolding revertSamplingPoints_def by (blast dest: andThen_Inr)
  obtain sw1 v1 where p1: "a1 = (sw1, v1)" by (cases a1)
  from r1 p1 obtain a2 where a2: "revertIfReversed m (SwKrwSamples_' q) (krwSamples_' q) = Some (Inr a2)"
    and r2: "(case a2 of (sw2, v2) \<Rightarrow>
     andThen (revertIfReversed m (SwKrnSamples_' q) (krnSamples_' q)) (\<lambda>(sw3, v3).
       Some (Inr (q\<lparr>SwPcwnSamples_' := sw1, pcwnSamples_' := v1,
                    SwKrwSamples_' := sw2, krwSamples_' := v2,
                    SwKrnSamples_' := sw3, krnSamples_' := v3\<rparr>)))) = Some (Inr p)"
    by (auto dest: andThen_Inr)
  obtain sw2 v2 where p2: "a2 = (sw2, v2)" by (cases a2)
  from r2 p2 obtain a3 where a3: "revertIfReversed m (SwKrnSamples_' q) (krnSamples_' q) = Some (Inr a3)"
    and r3: "(case a3 of (sw3, v3) \<Rightarrow>
       Some (Inr (q\<lparr>SwPcwnSamples_' := sw1, pcwnSamples_' := v1,
                    SwKrwSamples_' := sw2, krwSamples_' := v2,
                    SwKrnSamples_' := sw3, krnSamples_' := v3\<rparr>))) = Some (Inr p)"
    by (auto dest: andThen_Inr)
  obtain sw3 v3 where p3: "a3 = (sw3, v3)" by (cases a3)
  from r3 p3 have "p = q\<lparr>SwPcwnSamples_' := sw1, pcwnSamples_' := v1,
                    SwKrwSamples_' := sw2, krwSamples_' := v2,
                    SwKrnSamples_' := sw3, krnSamples_' := v3\<rparr>" by simp
  with a1 a2 a3 p1 p2 p3 that show thesis by blast
qed

lemma revertSamplingPoints_settled:
  assumes "revertSamplingPoints m q = Some (Inr p)"
  shows "revertSamplingPoints m' p = Some (Inr p)" and "\<not> any_triggers p"
proof -
  from assms obtain sw1 v1 sw2 v2 sw3 v3 where
    r: "revertIfReversed m (SwPcwnSamples_' q) (pcwnSamples_' q) = Some (Inr (sw1, v1))"
    "revertIfReversed m (SwKrwSamples_' q) (krwSamples_' q) = Some (Inr (sw2, v2))"
    "revertIfReversed m (SwKrnSamples_' q) (krnSamples_' q) = Some (Inr (sw3, v3))"
    and p: "p = q\<lparr>SwPcwnSamples_' := sw1, pcwnSamples_' := v1,
          SwKrwSamples_' := sw2, krwSamples_' := v2,
          SwKrnSamples_' := sw3, krnSamples_' := v3\<rparr>"
    by (rule revertSamplingPoints_InrE)
  note v = r [THEN revertIfReversed_settled, of m', THEN conjunct1]
  note t = r [THEN revertIfReversed_settled, of m', THEN conjunct2]
  show "revertSamplingPoints m' p = Some (Inr p)"
    by (simp add: revertSamplingPoints_def [of m' p]) (simp add: p v)
  show "\<not> any_triggers p"
    using t by (simp add: any_triggers_def p)
qed

section \<open>The view of a finalized table\<close>

text \<open>
  On view storage the three statements of \<open>finalize\<close> change nothing, and
  \<open>make_view\<close> of a finalized table is these three statements on its sequences.
\<close>

lemma all_nonempty_guard [simp]:
  "all_nonempty (p\<lparr>ensureFinalized := g\<rparr>) = all_nonempty p"
  by (simp add: all_nonempty_def)

lemma revertIfReversed_View_nonempty:
  assumes "sw \<noteq> []" and "vals \<noteq> []"
  shows "revertIfReversed View sw vals =
           (if triggers sw vals then Some (Inl LogicError) else Some (Inr (sw, vals)))"
  using assms
  by (simp add: revertIfReversed_def swapOrderIfPossibleThrowOtherwise_'_def triggers_def)

lemma revertSamplingPoints_View_nonempty:
  assumes "all_nonempty p"
  shows "revertSamplingPoints View p =
           (if any_triggers p then Some (Inl LogicError) else Some (Inr p))"
  using assms
  by (simp add: revertSamplingPoints_def all_nonempty_def any_triggers_def
      revertIfReversed_View_nonempty)

lemma revertIfReversed_View_same:
  assumes "revertIfReversed View sw vals = Some (Inr (sw', vals'))"
  shows "sw' = sw \<and> vals' = vals"
proof (cases "sw = []")
  case True
  with assms show ?thesis by (simp add: revertIfReversed_empty)
next
  case sw: False
  show ?thesis
  proof (cases "vals = []")
    case True
    with sw assms show ?thesis
      by (auto simp add: revertIfReversed_def swapOrderIfPossibleThrowOtherwise_'_def
          split: if_splits)
  next
    case False
    with sw assms show ?thesis
      by (auto simp add: revertIfReversed_View_nonempty split: if_splits)
  qed
qed

lemma revertSamplingPoints_View_same:
  assumes "revertSamplingPoints View q = Some (Inr v)"
  shows "v = q"
proof -
  from assms obtain sw1 v1 sw2 v2 sw3 v3 where
    r: "revertIfReversed View (SwPcwnSamples_' q) (pcwnSamples_' q) = Some (Inr (sw1, v1))"
    "revertIfReversed View (SwKrwSamples_' q) (krwSamples_' q) = Some (Inr (sw2, v2))"
    "revertIfReversed View (SwKrnSamples_' q) (krnSamples_' q) = Some (Inr (sw3, v3))"
    and v: "v = q\<lparr>SwPcwnSamples_' := sw1, pcwnSamples_' := v1,
          SwKrwSamples_' := sw2, krwSamples_' := v2,
          SwKrnSamples_' := sw3, krnSamples_' := v3\<rparr>"
    by (rule revertSamplingPoints_InrE)
  from r [THEN revertIfReversed_View_same] v show ?thesis by simp
qed

lemma make_view_as_finalize:
  assumes "ensureFinalized p = Finalized"
  shows "make_view p = revertSamplingPoints View p"
proof -
  let ?i = "Params_init (SwPcwnSamples_' p) (pcwnSamples_' p) (SwKrwSamples_' p)
       (krwSamples_' p) (SwKrnSamples_' p) (krnSamples_' p)"
  have eq: "?i\<lparr>ensureFinalized := Finalized\<rparr> = p"
    using Params_init_fields [of p] assms by simp
  have "make_view p = finalize View ?i" by (rule make_view_Finalized [OF assms])
  also have "\<dots> = revertSamplingPoints View (?i\<lparr>ensureFinalized := Finalized\<rparr>)"
    by (rule finalize_Unfinalized) simp
  also have "\<dots> = revertSamplingPoints View p" by (simp only: eq)
  finally show ?thesis .
qed

section \<open>Beyond the range of the loop counter\<close>



section \<open>The setters\<close>

lemma copy_to_resize: "length dst_src = n \<Longrightarrow> copy_to dst_src (resize n old) = dst_src"
  by (simp add: copy_to_def resize_def)

lemma populate_aligned:
  assumes "length a = length b" and "length c = length d" and "length e = length f"
  shows "populate a b c d e f = Inr (Params_init a b c d e f)"
  using assms
  by (simp add: populate_def setPcnwSamples_def setKrwSamples_def setKrnSamples_def
      Params_default_def Params_init_def copy_to_resize)

text \<open>A run of \<open>finalize\<close> in which the loop reverses the first pair.\<close>

lemma finalize_example:
  "finalize Owning (Params_init [1, 0.5, 0] [2, 1, 0] [0, 0.5, 1] [0, 0.3, 1] [0, 1] [1, 0])
     = Some (Inr \<lparr>ensureFinalized = Finalized,
         SwPcwnSamples_' = [0, 0.5, 1], SwKrwSamples_' = [0, 0.5, 1], SwKrnSamples_' = [0, 1],
         pcwnSamples_' = [0, 1, 2], krwSamples_' = [0, 0.3, 1], krnSamples_' = [1, 0]\<rparr>)"
  by (simp add: finalize_def EnsureFinalized_finalize_def EnsureFinalized_ctor_def Params_init_def
      revertSamplingPoints_def revertIfReversed_def swapOrderIfPossibleThrowOtherwise_'_def
      swap_loop.simps)

text \<open>The view of the table that the run above returns.\<close>

lemma make_view_example:
  "make_view \<lparr>ensureFinalized = Finalized,
         SwPcwnSamples_' = [0, 0.5, 1], SwKrwSamples_' = [0, 0.5, 1], SwKrnSamples_' = [0, 1],
         pcwnSamples_' = [0, 1, 2], krwSamples_' = [0, 0.3, 1], krnSamples_' = [1, 0]\<rparr>
   = Some (Inr \<lparr>ensureFinalized = Finalized,
         SwPcwnSamples_' = [0, 0.5, 1], SwKrwSamples_' = [0, 0.5, 1], SwKrnSamples_' = [0, 1],
         pcwnSamples_' = [0, 1, 2], krwSamples_' = [0, 0.3, 1], krnSamples_' = [1, 0]\<rparr>)"
  by (simp add: make_view_def Params_ctor_def make_view_of_def SwPcwnSamples_def
        pcwnSamples_def SwKrwSamples_def krwSamples_def SwKrnSamples_def krnSamples_def
        guarded_def EnsureFinalized_check_def finalize_def EnsureFinalized_finalize_def
        EnsureFinalized_ctor_def Params_init_def revertSamplingPoints_def revertIfReversed_def
        swapOrderIfPossibleThrowOtherwise_'_def)

text \<open>A setter whose assertion holds stores its two arguments.\<close>

lemma setters_result:
  assumes "length sw = length vals"
  shows "setPcnwSamples sw vals p = Inr (p\<lparr>SwPcwnSamples_' := sw, pcwnSamples_' := vals\<rparr>)"
    and "setKrwSamples sw vals p = Inr (p\<lparr>SwKrwSamples_' := sw, krwSamples_' := vals\<rparr>)"
    and "setKrnSamples sw vals p = Inr (p\<lparr>SwKrnSamples_' := sw, krnSamples_' := vals\<rparr>)"
  using assms
  by (simp_all add: setPcnwSamples_def setKrwSamples_def setKrnSamples_def copy_to_resize)

lemma make_view_keeps_aligned:
  assumes "make_view t = Some (Inr v)" and "pairs_aligned t"
  shows "pairs_aligned v"
proof (cases "ensureFinalized t")
  case Unfinalized
  with assms(1) show ?thesis by (simp add: make_view_Unfinalized)
next
  case Finalized
  from assms(1) make_view_Finalized [OF Finalized]
  have "finalize View (Params_init (SwPcwnSamples_' t) (pcwnSamples_' t) (SwKrwSamples_' t)
       (krwSamples_' t) (SwKrnSamples_' t) (krnSamples_' t)) = Some (Inr v)" by simp
  from finalize_keeps_preds(1) [OF this] assms(2) show ?thesis
    by (simp add: pairs_aligned_def Params_init_def)
qed

section \<open>Reads outside a sequence\<close>

lemma revertSamplingPoints_in_bounds:
  assumes "pairs_aligned p" and "nonempty_sw p"
  shows "revertSamplingPoints m p \<noteq> Some (Inl OutOfBounds)"
proof
  assume oob: "revertSamplingPoints m p = Some (Inl OutOfBounds)"
  from assms have
    ne: "SwPcwnSamples_' p \<noteq> []" "SwKrwSamples_' p \<noteq> []" "SwKrnSamples_' p \<noteq> []" and
    al: "length (pcwnSamples_' p) = length (SwPcwnSamples_' p)"
      "length (krwSamples_' p) = length (SwKrwSamples_' p)"
      "length (krnSamples_' p) = length (SwKrnSamples_' p)"
    by (simp_all add: pairs_aligned_def nonempty_sw_def)
  have step: "r \<noteq> Inl OutOfBounds"
    if "revertIfReversed m sw vals = Some r" "sw \<noteq> []" "length vals = length sw"
    for sw vals r
    using revertIfReversed_sound [OF that] by auto
  from oob [unfolded revertSamplingPoints_def] show False
  proof (elim andThen_Some [THEN disjE] exE conjE)
    fix e assume "revertIfReversed m (SwPcwnSamples_' p) (pcwnSamples_' p) = Some (Inl e)"
      "Inl OutOfBounds = Inl e"
    with step [OF _ ne(1) al(1)] show False by auto
  next
    fix a1 assume "(case a1 of (sw1, v1) \<Rightarrow>
        andThen (revertIfReversed m (SwKrwSamples_' p) (krwSamples_' p)) (\<lambda>(sw2, v2).
        andThen (revertIfReversed m (SwKrnSamples_' p) (krnSamples_' p)) (\<lambda>(sw3, v3).
          Some (Inr (p\<lparr>SwPcwnSamples_' := sw1, pcwnSamples_' := v1,
                    SwKrwSamples_' := sw2, krwSamples_' := v2,
                    SwKrnSamples_' := sw3, krnSamples_' := v3\<rparr>))))) = Some (Inl OutOfBounds)"
    then have "andThen (revertIfReversed m (SwKrwSamples_' p) (krwSamples_' p)) (\<lambda>(sw2, v2).
        andThen (revertIfReversed m (SwKrnSamples_' p) (krnSamples_' p)) (\<lambda>(sw3, v3).
          Some (Inr (p\<lparr>SwPcwnSamples_' := fst a1, pcwnSamples_' := snd a1,
                    SwKrwSamples_' := sw2, krwSamples_' := v2,
                    SwKrnSamples_' := sw3, krnSamples_' := v3\<rparr>)))) = Some (Inl OutOfBounds)"
      by (simp add: split_beta)
    then show False
    proof (elim andThen_Some [THEN disjE] exE conjE)
      fix e assume "revertIfReversed m (SwKrwSamples_' p) (krwSamples_' p) = Some (Inl e)"
        "Inl OutOfBounds = Inl e"
      with step [OF _ ne(2) al(2)] show False by auto
    next
      fix a2 assume "(case a2 of (sw2, v2) \<Rightarrow>
        andThen (revertIfReversed m (SwKrnSamples_' p) (krnSamples_' p)) (\<lambda>(sw3, v3).
          Some (Inr (p\<lparr>SwPcwnSamples_' := fst a1, pcwnSamples_' := snd a1,
                    SwKrwSamples_' := sw2, krwSamples_' := v2,
                    SwKrnSamples_' := sw3, krnSamples_' := v3\<rparr>)))) = Some (Inl OutOfBounds)"
      then have "andThen (revertIfReversed m (SwKrnSamples_' p) (krnSamples_' p)) (\<lambda>(sw3, v3).
          Some (Inr (p\<lparr>SwPcwnSamples_' := fst a1, pcwnSamples_' := snd a1,
                    SwKrwSamples_' := fst a2, krwSamples_' := snd a2,
                    SwKrnSamples_' := sw3, krnSamples_' := v3\<rparr>))) = Some (Inl OutOfBounds)"
        by (simp add: split_beta)
      then show False
      proof (elim andThen_Some [THEN disjE] exE conjE)
        fix e assume "revertIfReversed m (SwKrnSamples_' p) (krnSamples_' p) = Some (Inl e)"
          "Inl OutOfBounds = Inl e"
        with step [OF _ ne(3) al(3)] show False by auto
      next
        fix a3 assume "(case a3 of (sw3, v3) \<Rightarrow>
          Some (Inr (p\<lparr>SwPcwnSamples_' := fst a1, pcwnSamples_' := snd a1,
                    SwKrwSamples_' := fst a2, krwSamples_' := snd a2,
                    SwKrnSamples_' := sw3, krnSamples_' := v3\<rparr>))) = Some (Inl OutOfBounds)"
        then show False by (simp add: split_beta)
      qed
    qed
  qed
qed

lemma finalize_in_bounds:
  assumes "pairs_aligned p" and "nonempty_sw p"
  shows "finalize m p \<noteq> Some (Inl OutOfBounds)"
proof (cases "ensureFinalized p")
  case Unfinalized
  with revertSamplingPoints_in_bounds [of "p\<lparr>ensureFinalized := Finalized\<rparr>" m] assms
  show ?thesis by (simp add: finalize_Unfinalized)
next
  case Finalized
  then show ?thesis by (simp add: finalize_Finalized)
qed

lemma revertSamplingPoints_Owning_empty:
  assumes "pairs_aligned p" and "counter_fits p" and "\<not> nonempty_sw p"
  shows "revertSamplingPoints Owning p = Some (Inl OutOfBounds)"
proof -
  have r: "revertIfReversed Owning sw vals =
      (if sw = [] then Some (Inl OutOfBounds) else Some (Inr (revertedPair sw vals)))"
    if "length vals = length sw" "length sw div 2 < 2 ^ 32" for sw vals
    using that by (simp add: revertIfReversed_empty revertIfReversed_Owning)
  from assms(1,2) have
    "length (pcwnSamples_' p) = length (SwPcwnSamples_' p)"
    "length (SwPcwnSamples_' p) div 2 < 2 ^ 32"
    "length (krwSamples_' p) = length (SwKrwSamples_' p)"
    "length (SwKrwSamples_' p) div 2 < 2 ^ 32"
    "length (krnSamples_' p) = length (SwKrnSamples_' p)"
    "length (SwKrnSamples_' p) div 2 < 2 ^ 32"
    by (simp_all add: pairs_aligned_def counter_fits_def)
  then have
    "revertIfReversed Owning (SwPcwnSamples_' p) (pcwnSamples_' p) =
      (if SwPcwnSamples_' p = [] then Some (Inl OutOfBounds)
       else Some (Inr (revertedPair (SwPcwnSamples_' p) (pcwnSamples_' p))))"
    "revertIfReversed Owning (SwKrwSamples_' p) (krwSamples_' p) =
      (if SwKrwSamples_' p = [] then Some (Inl OutOfBounds)
       else Some (Inr (revertedPair (SwKrwSamples_' p) (krwSamples_' p))))"
    "revertIfReversed Owning (SwKrnSamples_' p) (krnSamples_' p) =
      (if SwKrnSamples_' p = [] then Some (Inl OutOfBounds)
       else Some (Inr (revertedPair (SwKrnSamples_' p) (krnSamples_' p))))"
    by (simp_all only: r)
  with assms(3) show ?thesis
    by (auto simp add: revertSamplingPoints_def nonempty_sw_def split_beta)
qed

lemma revertSamplingPoints_View_empty:
  assumes "pairs_aligned p" and "\<not> nonempty_sw p"
  shows "revertSamplingPoints View p = Some (Inl OutOfBounds) \<or>
         revertSamplingPoints View p = Some (Inl LogicError)"
proof -
  have r: "revertIfReversed View sw vals =
      (if sw = [] then Some (Inl OutOfBounds)
       else if triggers sw vals then Some (Inl LogicError) else Some (Inr (sw, vals)))"
    if "length vals = length sw" for sw vals
    using that by (simp add: revertIfReversed_empty revertIfReversed_View)
  from assms(1) have
    "length (pcwnSamples_' p) = length (SwPcwnSamples_' p)"
    "length (krwSamples_' p) = length (SwKrwSamples_' p)"
    "length (krnSamples_' p) = length (SwKrnSamples_' p)"
    by (simp_all add: pairs_aligned_def)
  then have
    "revertIfReversed View (SwPcwnSamples_' p) (pcwnSamples_' p) =
      (if SwPcwnSamples_' p = [] then Some (Inl OutOfBounds)
       else if triggers (SwPcwnSamples_' p) (pcwnSamples_' p) then Some (Inl LogicError)
       else Some (Inr (SwPcwnSamples_' p, pcwnSamples_' p)))"
    "revertIfReversed View (SwKrwSamples_' p) (krwSamples_' p) =
      (if SwKrwSamples_' p = [] then Some (Inl OutOfBounds)
       else if triggers (SwKrwSamples_' p) (krwSamples_' p) then Some (Inl LogicError)
       else Some (Inr (SwKrwSamples_' p, krwSamples_' p)))"
    "revertIfReversed View (SwKrnSamples_' p) (krnSamples_' p) =
      (if SwKrnSamples_' p = [] then Some (Inl OutOfBounds)
       else if triggers (SwKrnSamples_' p) (krnSamples_' p) then Some (Inl LogicError)
       else Some (Inr (SwKrnSamples_' p, krnSamples_' p)))"
    by (simp_all only: r)
  with assms(2) show ?thesis
    by (auto simp add: revertSamplingPoints_def nonempty_sw_def)
qed

text \<open>The three statements of \<open>finalize\<close> on a table whose first pair is reversed.\<close>

lemma revertSamplingPoints_example:
  "revertSamplingPoints Owning
      (Params_init [1, 0.5, 0] [2, 1, 0] [0, 0.5, 1] [0, 0.3, 1] [1, 0] [5, 3])
     = Some (Inr \<lparr>ensureFinalized = Unfinalized,
         SwPcwnSamples_' = [0, 0.5, 1], SwKrwSamples_' = [0, 0.5, 1], SwKrnSamples_' = [1, 0],
         pcwnSamples_' = [0, 1, 2], krwSamples_' = [0, 0.3, 1], krnSamples_' = [5, 3]\<rparr>)"
  by (simp add: EnsureFinalized_ctor_def Params_init_def
      revertSamplingPoints_def revertIfReversed_def swapOrderIfPossibleThrowOtherwise_'_def
      swap_loop.simps)

section \<open>The claims\<close>

text \<open>
  In the statements below the pairs of a table are \<^emph>\<open>aligned\<close> when the two sequences
  of each pair have the same length (\<open>pairs_aligned\<close>), and \<^emph>\<open>non-empty\<close> when the
  three saturation sequences are not empty (\<open>nonempty_sw\<close>); \<open>all_nonempty\<close> says
  that all six sequences are not empty. A pair \<^emph>\<open>passes both tests\<close> when
  \<open>triggers\<close> holds of it. The loop counter \<^emph>\<open>reaches\<close> the sizes of a table when
  half the size of each saturation sequence is below \<open>2 ^ 32\<close> (\<open>counter_fits\<close>);
  beyond that the counter wraps around and the loop does not end.
\<close>

text \<open>
  C1, as the code has it: on owning (mutable) storage, for a not yet finalized table with
  aligned, non-empty pairs, whose sizes the loop counter reaches, and in which every
  saturation sequence is descending (\<open>x.front() > x.back()\<close>) \<^emph>\<open>and\<close> starts above the
  last value of its pair (\<open>x.front() > y.back()\<close>, the test of
  \<open>swapOrderIfPossibleThrowOtherwise_\<close>), \<open>finalize\<close> reverses all six sequences. The
  pairs of samples are the same as before, the saturation sequences now start below where
  they end, and a saturation sequence that was sorted in descending order is sorted in
  ascending order.
\<close>

theorem C1_finalize_reverses_descending_gated:
  assumes "ensureFinalized p = Unfinalized" and "pairs_aligned p" and "nonempty_sw p"
    and "counter_fits p"
    and "triggers (SwPcwnSamples_' p) (pcwnSamples_' p)"
    and "triggers (SwKrwSamples_' p) (krwSamples_' p)"
    and "triggers (SwKrnSamples_' p) (krnSamples_' p)"
  shows "\<exists>p'. finalize Owning p = Some (Inr p') \<and> ensureFinalized p' = Finalized \<and>
     SwPcwnSamples_' p' = rev (SwPcwnSamples_' p) \<and> pcwnSamples_' p' = rev (pcwnSamples_' p) \<and>
     SwKrwSamples_' p' = rev (SwKrwSamples_' p) \<and> krwSamples_' p' = rev (krwSamples_' p) \<and>
     SwKrnSamples_' p' = rev (SwKrnSamples_' p) \<and> krnSamples_' p' = rev (krnSamples_' p) \<and>
     mset (zip (SwPcwnSamples_' p') (pcwnSamples_' p')) =
       mset (zip (SwPcwnSamples_' p) (pcwnSamples_' p)) \<and>
     mset (zip (SwKrwSamples_' p') (krwSamples_' p')) =
       mset (zip (SwKrwSamples_' p) (krwSamples_' p)) \<and>
     mset (zip (SwKrnSamples_' p') (krnSamples_' p')) =
       mset (zip (SwKrnSamples_' p) (krnSamples_' p)) \<and>
     hd (SwPcwnSamples_' p') < last (SwPcwnSamples_' p') \<and>
     hd (SwKrwSamples_' p') < last (SwKrwSamples_' p') \<and>
     hd (SwKrnSamples_' p') < last (SwKrnSamples_' p') \<and>
     (sorted_wrt (\<ge>) (SwPcwnSamples_' p) \<longrightarrow> sorted (SwPcwnSamples_' p')) \<and>
     (sorted_wrt (\<ge>) (SwKrwSamples_' p) \<longrightarrow> sorted (SwKrwSamples_' p')) \<and>
     (sorted_wrt (\<ge>) (SwKrnSamples_' p) \<longrightarrow> sorted (SwKrnSamples_' p'))"
proof -
  let ?q = "p\<lparr>ensureFinalized := Finalized\<rparr>"
  have "finalize Owning p = revertSamplingPoints Owning ?q"
    by (rule finalize_Unfinalized [OF assms(1)])
  also have "\<dots> = Some (Inr (reverted ?q))"
    using assms(2-4) by (intro revertSamplingPoints_Owning) simp_all
  finally have fin: "finalize Owning p = Some (Inr (reverted ?q))" .
  have pairing: "mset (zip (rev xs) (rev ys)) = mset (zip xs ys)"
    if "length xs = length ys" for xs ys :: ValueVector
    using that by (simp add: zip_rev)
  have srt: "sorted_wrt (\<ge>) xs \<longrightarrow> sorted (rev xs)" for xs :: ValueVector
    by (simp add: sorted_wrt_rev)
  have ends: "hd (rev xs) < last (rev xs)" if "xs \<noteq> []" "triggers xs ys" for xs ys :: ValueVector
    using that by (simp add: triggers_def hd_rev last_rev)
  from assms(2,3) have
    ne: "SwPcwnSamples_' p \<noteq> []" "SwKrwSamples_' p \<noteq> []" "SwKrnSamples_' p \<noteq> []" and
    al: "length (SwPcwnSamples_' p) = length (pcwnSamples_' p)"
      "length (SwKrwSamples_' p) = length (krwSamples_' p)"
      "length (SwKrnSamples_' p) = length (krnSamples_' p)"
    by (simp_all add: pairs_aligned_def nonempty_sw_def)
  have "ensureFinalized (reverted ?q) = Finalized"
    "SwPcwnSamples_' (reverted ?q) = rev (SwPcwnSamples_' p)"
    "pcwnSamples_' (reverted ?q) = rev (pcwnSamples_' p)"
    "SwKrwSamples_' (reverted ?q) = rev (SwKrwSamples_' p)"
    "krwSamples_' (reverted ?q) = rev (krwSamples_' p)"
    "SwKrnSamples_' (reverted ?q) = rev (SwKrnSamples_' p)"
    "krnSamples_' (reverted ?q) = rev (krnSamples_' p)"
    using assms(5-7) by (simp_all add: reverted_def revertedPair_def)
  with fin pairing [OF al(1)] pairing [OF al(2)] pairing [OF al(3)]
    ends [OF ne(1) assms(5)] ends [OF ne(2) assms(6)] ends [OF ne(3) assms(7)]
    srt [of "SwPcwnSamples_' p"] srt [of "SwKrwSamples_' p"] srt [of "SwKrnSamples_' p"]
  show ?thesis by simp
qed

text \<open>Three pairs in descending order that pass the second test as well.\<close>

theorem C1_witness:
  "(let p = Params_init [1, 0.5, 0] [2, 1, 0] [1, 0.5, 0] [1, 0.3, 0] [1, 0] [1, 0] in
    ensureFinalized p = Unfinalized \<and> pairs_aligned p \<and> nonempty_sw p \<and> counter_fits p \<and>
    triggers (SwPcwnSamples_' p) (pcwnSamples_' p) \<and>
    triggers (SwKrwSamples_' p) (krwSamples_' p) \<and>
    triggers (SwKrnSamples_' p) (krnSamples_' p) \<and>
    sorted_wrt (\<ge>) (SwPcwnSamples_' p) \<and> sorted_wrt (\<ge>) (SwKrwSamples_' p) \<and>
    sorted_wrt (\<ge>) (SwKrnSamples_' p) \<and>
    finalize Owning p = Some (Inr \<lparr>ensureFinalized = Finalized,
         SwPcwnSamples_' = [0, 0.5, 1], SwKrwSamples_' = [0, 0.5, 1], SwKrnSamples_' = [0, 1],
         pcwnSamples_' = [0, 1, 2], krwSamples_' = [0, 0.3, 1], krnSamples_' = [0, 1]\<rparr>) \<and>
    sorted [0, 0.5, 1 :: real] \<and> sorted [0, 1 :: real])"
  using C1_finalize_reverses_descending_gated
    [of "Params_init [1, 0.5, 0] [2, 1, 0] [1, 0.5, 0] [1, 0.3, 0] [1, 0] [1, 0]"]
  by (auto simp add: Params_init_def EnsureFinalized_ctor_def pairs_aligned_def nonempty_sw_def
      counter_fits_def triggers_def)

text \<open>
  C1 as the spec states it fails on its own example: in \<open>SwPcwn = [1.0, 0.5, 0.0]\<close>,
  \<open>Pcwn = [0.0, 1.0, 2.0]\<close> the saturation sequence is descending, but \<open>1.0 > 2.0\<close> is
  false, so \<open>swapOrderIfPossibleThrowOtherwise_\<close> does nothing and \<open>finalize\<close> leaves
  the pair as it was.
\<close>

theorem C1_counterexample:
  "finalize Owning (Params_init [1, 0.5, 0] [0, 1, 2] [1, 0.5, 0] [0, 1, 2] [1, 0.5, 0] [0, 1, 2])
     = Some (Inr \<lparr>ensureFinalized = Finalized,
         SwPcwnSamples_' = [1, 0.5, 0], SwKrwSamples_' = [1, 0.5, 0], SwKrnSamples_' = [1, 0.5, 0],
         pcwnSamples_' = [0, 1, 2], krwSamples_' = [0, 1, 2], krnSamples_' = [0, 1, 2]\<rparr>) \<and>
   finalize Owning (Params_init [1, 0.5, 0] [0, 1, 2] [1, 0.5, 0] [0, 1, 2] [1, 0.5, 0] [0, 1, 2])
     \<noteq> Some (Inr \<lparr>ensureFinalized = Finalized,
         SwPcwnSamples_' = [0, 0.5, 1], SwKrwSamples_' = [0, 0.5, 1], SwKrnSamples_' = [0, 0.5, 1],
         pcwnSamples_' = [2, 1, 0], krwSamples_' = [2, 1, 0], krnSamples_' = [2, 1, 0]\<rparr>)"
  by (simp add: finalize_def EnsureFinalized_finalize_def EnsureFinalized_ctor_def Params_init_def
      revertSamplingPoints_def revertIfReversed_def swapOrderIfPossibleThrowOtherwise_'_def)




text \<open>
  C3: on view (immutable) storage, for a table with aligned, non-empty pairs: if some pair
  passes both tests (\<open>x.front() > x.back()\<close> and \<open>x.front() > y.back()\<close>),
  \<open>finalize\<close> never returns a table, and on a not yet finalized table it fails with the
  logic error; if no pair passes both, \<open>finalize\<close> on a not yet finalized table succeeds
  and no sequence is changed.
\<close>

theorem C3_view_finalize_throws_or_keeps:
  assumes "pairs_aligned p" and "nonempty_sw p"
  shows "(any_triggers p \<longrightarrow> (\<forall>p'. finalize View p \<noteq> Some (Inr p'))) \<and>
         (ensureFinalized p = Unfinalized \<and> any_triggers p \<longrightarrow>
            finalize View p = Some (Inl LogicError)) \<and>
         (ensureFinalized p = Unfinalized \<and> \<not> any_triggers p \<longrightarrow>
            finalize View p = Some (Inr (p\<lparr>ensureFinalized := Finalized\<rparr>)))"
proof -
  let ?q = "p\<lparr>ensureFinalized := Finalized\<rparr>"
  have u: "finalize View p = (if any_triggers p then Some (Inl LogicError) else Some (Inr ?q))"
    if "ensureFinalized p = Unfinalized"
  proof -
    have "finalize View p = revertSamplingPoints View ?q"
      by (rule finalize_Unfinalized [OF that])
    also have "\<dots> = (if any_triggers ?q then Some (Inl LogicError) else Some (Inr ?q))"
      using assms by (intro revertSamplingPoints_View) simp_all
    finally show ?thesis by simp
  qed
  have "finalize View p \<noteq> Some (Inr p')" if "any_triggers p" for p'
  proof (cases "ensureFinalized p")
    case Unfinalized
    with u that show ?thesis by simp
  next
    case Finalized
    then show ?thesis by (simp add: finalize_Finalized)
  qed
  with u show ?thesis by simp
qed

text \<open>
  In the first table the second pair passes both tests; in the second table that pair is
  descending but fails the second test.
\<close>

theorem C3_witness:
  "(let p = Params_init [0, 0.5, 1] [0, 1, 2] [1, 0.5, 0] [1, 0.3, 0] [0, 1] [1, 0];
        q = Params_init [0, 0.5, 1] [0, 1, 2] [1, 0.5, 0] [1, 0.3, 2] [0, 1] [1, 0] in
    ensureFinalized p = Unfinalized \<and> pairs_aligned p \<and> nonempty_sw p \<and> any_triggers p \<and>
    finalize View p = Some (Inl LogicError) \<and>
    ensureFinalized q = Unfinalized \<and> pairs_aligned q \<and> nonempty_sw q \<and> \<not> any_triggers q \<and>
    finalize View q = Some (Inr \<lparr>ensureFinalized = Finalized,
         SwPcwnSamples_' = [0, 0.5, 1], SwKrwSamples_' = [1, 0.5, 0], SwKrnSamples_' = [0, 1],
         pcwnSamples_' = [0, 1, 2], krwSamples_' = [1, 0.3, 2], krnSamples_' = [1, 0]\<rparr>))"
proof -
  let ?a = "Params_init [0, 0.5, 1] [0, 1, 2] [1, 0.5, 0] [1, 0.3, 0] [0, 1] [1, 0]"
  let ?b = "Params_init [0, 0.5, 1] [0, 1, 2] [1, 0.5, 0] [1, 0.3, 2] [0, 1] [1, 0]"
  have a: "pairs_aligned ?a" "nonempty_sw ?a" "ensureFinalized ?a = Unfinalized \<and> any_triggers ?a"
    by (simp_all add: triggers_def)
  have b: "pairs_aligned ?b" "nonempty_sw ?b"
    "ensureFinalized ?b = Unfinalized \<and> \<not> any_triggers ?b"
    by (simp_all add: triggers_def)
  note ta = C3_view_finalize_throws_or_keeps
    [OF a(1,2), THEN conjunct2, THEN conjunct1, THEN mp, OF a(3)]
  note tb = C3_view_finalize_throws_or_keeps
    [OF b(1,2), THEN conjunct2, THEN conjunct2, THEN mp, OF b(3)]
  from ta tb a b show ?thesis
    by (simp add: Let_def Params_init_def EnsureFinalized_ctor_def)
qed

text \<open>
  C4: on every table, over either storage, each of the six read accessors fails by the
  guard, and returns no data, as long as \<open>finalize\<close> has not run; on the table that
  \<open>finalize\<close> returns, each accessor returns the stored sequence.
\<close>

theorem C4_accessors_guarded:
  "(ensureFinalized p = Unfinalized \<longrightarrow>
      SwPcwnSamples p = Inl NotFinalized \<and> pcwnSamples p = Inl NotFinalized \<and>
      SwKrwSamples p = Inl NotFinalized \<and> krwSamples p = Inl NotFinalized \<and>
      SwKrnSamples p = Inl NotFinalized \<and> krnSamples p = Inl NotFinalized) \<and>
   (finalize m q = Some (Inr q') \<longrightarrow>
      SwPcwnSamples q' = Inr (SwPcwnSamples_' q') \<and> pcwnSamples q' = Inr (pcwnSamples_' q') \<and>
      SwKrwSamples q' = Inr (SwKrwSamples_' q') \<and> krwSamples q' = Inr (krwSamples_' q') \<and>
      SwKrnSamples q' = Inr (SwKrnSamples_' q') \<and> krnSamples q' = Inr (krnSamples_' q'))"
proof (intro conjI impI)
  assume u: "ensureFinalized p = Unfinalized"
  show "SwPcwnSamples p = Inl NotFinalized" by (rule accessors_Unfinalized [OF u])
  show "pcwnSamples p = Inl NotFinalized" by (rule accessors_Unfinalized [OF u])
  show "SwKrwSamples p = Inl NotFinalized" by (rule accessors_Unfinalized [OF u])
  show "krwSamples p = Inl NotFinalized" by (rule accessors_Unfinalized [OF u])
  show "SwKrnSamples p = Inl NotFinalized" by (rule accessors_Unfinalized [OF u])
  show "krnSamples p = Inl NotFinalized" by (rule accessors_Unfinalized [OF u])
next
  assume "finalize m q = Some (Inr q')"
  then have f: "ensureFinalized q' = Finalized" by (rule finalize_returns(3))
  show "SwPcwnSamples q' = Inr (SwPcwnSamples_' q')" by (rule accessors_Finalized [OF f])
  show "pcwnSamples q' = Inr (pcwnSamples_' q')" by (rule accessors_Finalized [OF f])
  show "SwKrwSamples q' = Inr (SwKrwSamples_' q')" by (rule accessors_Finalized [OF f])
  show "krwSamples q' = Inr (krwSamples_' q')" by (rule accessors_Finalized [OF f])
  show "SwKrnSamples q' = Inr (SwKrnSamples_' q')" by (rule accessors_Finalized [OF f])
  show "krnSamples q' = Inr (krnSamples_' q')" by (rule accessors_Finalized [OF f])
qed

theorem C4_witness:
  "(let p = Params_init [1, 0.5, 0] [2, 1, 0] [0, 0.5, 1] [0, 0.3, 1] [0, 1] [1, 0];
        q' = \<lparr>ensureFinalized = Finalized,
         SwPcwnSamples_' = [0, 0.5, 1], SwKrwSamples_' = [0, 0.5, 1], SwKrnSamples_' = [0, 1],
         pcwnSamples_' = [0, 1, 2], krwSamples_' = [0, 0.3, 1], krnSamples_' = [1, 0]\<rparr> in
    ensureFinalized p = Unfinalized \<and>
    SwPcwnSamples p = Inl NotFinalized \<and> pcwnSamples p = Inl NotFinalized \<and>
    SwKrwSamples p = Inl NotFinalized \<and> krwSamples p = Inl NotFinalized \<and>
    SwKrnSamples p = Inl NotFinalized \<and> krnSamples p = Inl NotFinalized \<and>
    finalize Owning p = Some (Inr q') \<and>
    SwPcwnSamples q' = Inr [0, 0.5, 1] \<and> pcwnSamples q' = Inr [0, 1, 2] \<and>
    SwKrwSamples q' = Inr [0, 0.5, 1] \<and> krwSamples q' = Inr [0, 0.3, 1] \<and>
    SwKrnSamples q' = Inr [0, 1] \<and> krnSamples q' = Inr [1, 0])"
  using C4_accessors_guarded
    [of "Params_init [1, 0.5, 0] [2, 1, 0] [0, 0.5, 1] [0, 0.3, 1] [0, 1] [1, 0]"
        Owning "Params_init [1, 0.5, 0] [2, 1, 0] [0, 0.5, 1] [0, 0.3, 1] [0, 1] [1, 0]"
        "\<lparr>ensureFinalized = Finalized,
         SwPcwnSamples_' = [0, 0.5, 1], SwKrwSamples_' = [0, 0.5, 1], SwKrnSamples_' = [0, 1],
         pcwnSamples_' = [0, 1, 2], krwSamples_' = [0, 0.3, 1], krnSamples_' = [1, 0]\<rparr>"]
    finalize_example
  by (simp add: Params_init_preds)

text \<open>
  C5: for sample sequences of equal length within each pair, not empty, whose saturation
  sequences are ascending (the first element is not greater than the last), the table
  constructed from them and finalized holds the six sequences unchanged. This is so for
  the six-argument constructor over either storage, and for the default constructor followed
  by the three setters and \<open>finalize\<close>.
\<close>

theorem C5_ascending_unchanged:
  assumes "a \<noteq> []" and "c \<noteq> []" and "e \<noteq> []"
    and "length a = length b" and "length c = length d" and "length e = length f"
    and "hd a \<le> last a" and "hd c \<le> last c" and "hd e \<le> last e"
  shows "Params_ctor m a b c d e f = Some (Inr \<lparr>ensureFinalized = Finalized,
             SwPcwnSamples_' = a, SwKrwSamples_' = c, SwKrnSamples_' = e,
             pcwnSamples_' = b, krwSamples_' = d, krnSamples_' = f\<rparr>) \<and>
         andThen (Some (populate a b c d e f)) (finalize Owning) =
           Some (Inr \<lparr>ensureFinalized = Finalized,
             SwPcwnSamples_' = a, SwKrwSamples_' = c, SwKrnSamples_' = e,
             pcwnSamples_' = b, krwSamples_' = d, krnSamples_' = f\<rparr>)"
proof -
  let ?i = "Params_init a b c d e f"
  have fin: "finalize m' ?i = Some (Inr (?i\<lparr>ensureFinalized := Finalized\<rparr>))" for m'
  proof -
    have "finalize m' ?i = revertSamplingPoints m' (?i\<lparr>ensureFinalized := Finalized\<rparr>)"
      by (rule finalize_Unfinalized) simp
    also have "\<dots> = Some (Inr (?i\<lparr>ensureFinalized := Finalized\<rparr>))"
      using assms by (intro revertSamplingPoints_ascending) (simp_all add: Params_init_def nonempty_sw_def)
    finally show ?thesis .
  qed
  have eq: "?i\<lparr>ensureFinalized := Finalized\<rparr> = \<lparr>ensureFinalized = Finalized,
             SwPcwnSamples_' = a, SwKrwSamples_' = c, SwKrnSamples_' = e,
             pcwnSamples_' = b, krwSamples_' = d, krnSamples_' = f\<rparr>"
    by (simp add: Params_init_def)
  show ?thesis
    using fin [of m] fin [of Owning] populate_aligned [OF assms(4-6)]
    by (simp add: Params_ctor_def eq)
qed

theorem C5_witness:
  "[0, 0.5, 1 :: real] \<noteq> [] \<and> length [0, 0.5, 1 :: real] = length [0, 0.3, 1 :: real] \<and>
   hd [0, 0.5, 1 :: real] \<le> last [0, 0.5, 1 :: real] \<and>
   Params_ctor View [0, 0.5, 1] [0, 1, 2] [0, 0.5, 1] [0, 0.3, 1] [0, 0.5, 1] [1, 0.6, 0]
     = Some (Inr \<lparr>ensureFinalized = Finalized,
         SwPcwnSamples_' = [0, 0.5, 1], SwKrwSamples_' = [0, 0.5, 1], SwKrnSamples_' = [0, 0.5, 1],
         pcwnSamples_' = [0, 1, 2], krwSamples_' = [0, 0.3, 1], krnSamples_' = [1, 0.6, 0]\<rparr>) \<and>
   andThen (Some (populate [0, 0.5, 1] [0, 1, 2] [0, 0.5, 1] [0, 0.3, 1] [0, 0.5, 1] [1, 0.6, 0]))
       (finalize Owning)
     = Some (Inr \<lparr>ensureFinalized = Finalized,
         SwPcwnSamples_' = [0, 0.5, 1], SwKrwSamples_' = [0, 0.5, 1], SwKrnSamples_' = [0, 0.5, 1],
         pcwnSamples_' = [0, 1, 2], krwSamples_' = [0, 0.3, 1], krnSamples_' = [1, 0.6, 0]\<rparr>)"
  using C5_ascending_unchanged
    [of "[0, 0.5, 1]" "[0, 0.5, 1]" "[0, 0.5, 1]" "[0, 1, 2]" "[0, 0.3, 1]" "[1, 0.6, 0]" View]
  by simp

text \<open>
  C6, as the code has it: let \<open>p\<close> be a finalized table (its guard is set) with six
  non-empty sequences. If no pair of \<open>p\<close> passes both tests, \<open>make_view\<close> does not
  fail: it returns a table over the view type, and each of the six accessors of that table
  returns the same sequence as the accessor of \<open>p\<close>. If a pair of \<open>p\<close> passes both
  tests, \<open>make_view\<close> fails with the logic error. In a table as \<open>finalize\<close> has
  returned it, on either storage, no pair passes both tests.
\<close>

theorem C6_make_view_same_sequences:
  assumes "ensureFinalized p = Finalized" and "all_nonempty p"
  shows "(\<not> any_triggers p \<longrightarrow>
      (\<exists>v. make_view p = Some (Inr v) \<and>
         SwPcwnSamples v = SwPcwnSamples p \<and> SwPcwnSamples p = Inr (SwPcwnSamples_' p) \<and>
         pcwnSamples v = pcwnSamples p \<and> pcwnSamples p = Inr (pcwnSamples_' p) \<and>
         SwKrwSamples v = SwKrwSamples p \<and> SwKrwSamples p = Inr (SwKrwSamples_' p) \<and>
         krwSamples v = krwSamples p \<and> krwSamples p = Inr (krwSamples_' p) \<and>
         SwKrnSamples v = SwKrnSamples p \<and> SwKrnSamples p = Inr (SwKrnSamples_' p) \<and>
         krnSamples v = krnSamples p \<and> krnSamples p = Inr (krnSamples_' p))) \<and>
    (any_triggers p \<longrightarrow> make_view p = Some (Inl LogicError)) \<and>
    (\<forall>m p0. finalize m p0 = Some (Inr p) \<longrightarrow> \<not> any_triggers p)"
proof (intro conjI impI allI)
  have mv: "make_view p = (if any_triggers p then Some (Inl LogicError) else Some (Inr p))"
    using make_view_as_finalize [OF assms(1)] revertSamplingPoints_View_nonempty [OF assms(2)]
    by simp
  {
    assume "\<not> any_triggers p"
    with mv have "make_view p = Some (Inr p)" by simp
    with accessors_Finalized [OF assms(1)]
    show "\<exists>v. make_view p = Some (Inr v) \<and>
         SwPcwnSamples v = SwPcwnSamples p \<and> SwPcwnSamples p = Inr (SwPcwnSamples_' p) \<and>
         pcwnSamples v = pcwnSamples p \<and> pcwnSamples p = Inr (pcwnSamples_' p) \<and>
         SwKrwSamples v = SwKrwSamples p \<and> SwKrwSamples p = Inr (SwKrwSamples_' p) \<and>
         krwSamples v = krwSamples p \<and> krwSamples p = Inr (krwSamples_' p) \<and>
         SwKrnSamples v = SwKrnSamples p \<and> SwKrnSamples p = Inr (SwKrnSamples_' p) \<and>
         krnSamples v = krnSamples p \<and> krnSamples p = Inr (krnSamples_' p)"
      by simp
  }
  {
    assume "any_triggers p"
    with mv show "make_view p = Some (Inl LogicError)" by simp
  }
  {
    fix m p0 assume "finalize m p0 = Some (Inr p)"
    from revertSamplingPoints_settled(2) [OF finalize_returns(2) [OF this]]
    show "\<not> any_triggers p" .
  }
qed

theorem C6_witness:
  "(let p0 = Params_init [1, 0.5, 0] [2, 1, 0] [0, 0.5, 1] [0, 0.3, 1] [0, 1] [1, 0];
        p = \<lparr>ensureFinalized = Finalized,
         SwPcwnSamples_' = [0, 0.5, 1], SwKrwSamples_' = [0, 0.5, 1], SwKrnSamples_' = [0, 1],
         pcwnSamples_' = [0, 1, 2], krwSamples_' = [0, 0.3, 1], krnSamples_' = [1, 0]\<rparr>;
        q = \<lparr>ensureFinalized = Finalized,
         SwPcwnSamples_' = [0, 0.5, 1], SwKrwSamples_' = [0, 0.5, 1], SwKrnSamples_' = [1, 0],
         pcwnSamples_' = [0, 1, 2], krwSamples_' = [0, 0.3, 1], krnSamples_' = [0, -1]\<rparr> in
    ensureFinalized p = Finalized \<and> all_nonempty p \<and> \<not> any_triggers p \<and>
    finalize Owning p0 = Some (Inr p) \<and> make_view p = Some (Inr p) \<and>
    SwPcwnSamples p = Inr [0, 0.5, 1] \<and> pcwnSamples p = Inr [0, 1, 2] \<and>
    SwKrwSamples p = Inr [0, 0.5, 1] \<and> krwSamples p = Inr [0, 0.3, 1] \<and>
    SwKrnSamples p = Inr [0, 1] \<and> krnSamples p = Inr [1, 0] \<and>
    ensureFinalized q = Finalized \<and> all_nonempty q \<and> any_triggers q \<and>
    make_view q = Some (Inl LogicError))"
proof -
  let ?a = "Params_init [1, 0.5, 0] [2, 1, 0] [0, 0.5, 1] [0, 0.3, 1] [0, 1] [1, 0]"
  let ?b = "\<lparr>ensureFinalized = Finalized,
         SwPcwnSamples_' = [0, 0.5, 1], SwKrwSamples_' = [0, 0.5, 1], SwKrnSamples_' = [0, 1],
         pcwnSamples_' = [0, 1, 2], krwSamples_' = [0, 0.3, 1], krnSamples_' = [1, 0]\<rparr>"
  let ?c = "\<lparr>ensureFinalized = Finalized,
         SwPcwnSamples_' = [0, 0.5, 1], SwKrwSamples_' = [0, 0.5, 1], SwKrnSamples_' = [1, 0],
         pcwnSamples_' = [0, 1, 2], krwSamples_' = [0, 0.3, 1], krnSamples_' = [0, -1]\<rparr>"
  have h: "finalize Owning ?a = Some (Inr ?b)" by (rule finalize_example)
  have b: "ensureFinalized ?b = Finalized" "all_nonempty ?b" "\<not> any_triggers ?b"
    by (simp_all add: all_nonempty_def any_triggers_def triggers_def)
  have c: "ensureFinalized ?c = Finalized" "all_nonempty ?c" "any_triggers ?c"
    by (simp_all add: all_nonempty_def any_triggers_def triggers_def)
  from C6_make_view_same_sequences [OF b(1,2), THEN conjunct1, THEN mp, OF b(3)]
  obtain v where
    v: "make_view ?b = Some (Inr v)"
    and s: "SwPcwnSamples v = SwPcwnSamples ?b" "SwPcwnSamples ?b = Inr (SwPcwnSamples_' ?b)"
     "pcwnSamples v = pcwnSamples ?b" "pcwnSamples ?b = Inr (pcwnSamples_' ?b)"
     "SwKrwSamples v = SwKrwSamples ?b" "SwKrwSamples ?b = Inr (SwKrwSamples_' ?b)"
     "krwSamples v = krwSamples ?b" "krwSamples ?b = Inr (krwSamples_' ?b)"
     "SwKrnSamples v = SwKrnSamples ?b" "SwKrnSamples ?b = Inr (SwKrnSamples_' ?b)"
     "krnSamples v = krnSamples ?b" "krnSamples ?b = Inr (krnSamples_' ?b)"
    by blast
  note t = C6_make_view_same_sequences
    [OF c(1,2), THEN conjunct2, THEN conjunct1, THEN mp, OF c(3)]
  from h b c s t make_view_example show ?thesis by (simp add: Let_def)
qed

text \<open>
  C6 as the spec states it fails: the setters have no guard, so a finalized owning table
  with non-empty sequences can hold a pair that passes both tests. Here the constructor
  returns a finalized table, \<open>setKrnSamples\<close> stores a descending pair in it, the
  accessor still returns data, and \<open>make_view\<close> throws the logic error.
\<close>

theorem C6_counterexample:
  "Params_ctor Owning [0, 0.5, 1] [0, 1, 2] [0, 0.5, 1] [0, 0.3, 1] [0, 1] [1, 0]
     = Some (Inr \<lparr>ensureFinalized = Finalized,
         SwPcwnSamples_' = [0, 0.5, 1], SwKrwSamples_' = [0, 0.5, 1], SwKrnSamples_' = [0, 1],
         pcwnSamples_' = [0, 1, 2], krwSamples_' = [0, 0.3, 1], krnSamples_' = [1, 0]\<rparr>) \<and>
   setKrnSamples [1, 0] [0, -1] \<lparr>ensureFinalized = Finalized,
         SwPcwnSamples_' = [0, 0.5, 1], SwKrwSamples_' = [0, 0.5, 1], SwKrnSamples_' = [0, 1],
         pcwnSamples_' = [0, 1, 2], krwSamples_' = [0, 0.3, 1], krnSamples_' = [1, 0]\<rparr>
     = Inr \<lparr>ensureFinalized = Finalized,
         SwPcwnSamples_' = [0, 0.5, 1], SwKrwSamples_' = [0, 0.5, 1], SwKrnSamples_' = [1, 0],
         pcwnSamples_' = [0, 1, 2], krwSamples_' = [0, 0.3, 1], krnSamples_' = [0, -1]\<rparr> \<and>
   all_nonempty \<lparr>ensureFinalized = Finalized,
         SwPcwnSamples_' = [0, 0.5, 1], SwKrwSamples_' = [0, 0.5, 1], SwKrnSamples_' = [1, 0],
         pcwnSamples_' = [0, 1, 2], krwSamples_' = [0, 0.3, 1], krnSamples_' = [0, -1]\<rparr> \<and>
   SwKrnSamples \<lparr>ensureFinalized = Finalized,
         SwPcwnSamples_' = [0, 0.5, 1], SwKrwSamples_' = [0, 0.5, 1], SwKrnSamples_' = [1, 0],
         pcwnSamples_' = [0, 1, 2], krwSamples_' = [0, 0.3, 1], krnSamples_' = [0, -1]\<rparr>
     = Inr [1, 0] \<and>
   make_view \<lparr>ensureFinalized = Finalized,
         SwPcwnSamples_' = [0, 0.5, 1], SwKrwSamples_' = [0, 0.5, 1], SwKrnSamples_' = [1, 0],
         pcwnSamples_' = [0, 1, 2], krwSamples_' = [0, 0.3, 1], krnSamples_' = [0, -1]\<rparr>
     = Some (Inl LogicError)"
  by (simp add: make_view_def Params_ctor_def make_view_of_def SwPcwnSamples_def
        pcwnSamples_def SwKrwSamples_def krwSamples_def SwKrnSamples_def krnSamples_def
        guarded_def EnsureFinalized_check_def finalize_def EnsureFinalized_finalize_def
        EnsureFinalized_ctor_def Params_init_def revertSamplingPoints_def revertIfReversed_def
        swapOrderIfPossibleThrowOtherwise_'_def setKrnSamples_def copy_to_def resize_def
        all_nonempty_def)

text \<open>
  C7, as the code has it: \<open>make_view\<close> hands the six views to the six-argument
  constructor, and that constructor runs \<open>finalize\<close> on the new table over the view
  type. So for a finalized source, what \<open>make_view\<close> returns is what \<open>finalize\<close>
  returns on the table as the member initialisers leave it, which is not yet finalized: the
  table of a view has a guard transition of its own, and the two tests are evaluated again
  on each pair. Nothing is reordered on view storage: whenever \<open>make_view\<close> returns a
  table, it is that table with the guard set, holding the source's sequences. When the six
  sequences of the source are not empty, \<open>make_view\<close> fails with the logic error if a
  pair of the source passes both tests, and returns that table otherwise.
\<close>

theorem C7_make_view_runs_finalize:
  assumes "ensureFinalized p = Finalized"
  shows "make_view p =
           finalize View (Params_init (SwPcwnSamples_' p) (pcwnSamples_' p) (SwKrwSamples_' p)
             (krwSamples_' p) (SwKrnSamples_' p) (krnSamples_' p)) \<and>
         ensureFinalized (Params_init (SwPcwnSamples_' p) (pcwnSamples_' p) (SwKrwSamples_' p)
             (krwSamples_' p) (SwKrnSamples_' p) (krnSamples_' p)) = Unfinalized \<and>
         (\<forall>v. make_view p = Some (Inr v) \<longrightarrow>
            v = (Params_init (SwPcwnSamples_' p) (pcwnSamples_' p)
              (SwKrwSamples_' p) (krwSamples_' p) (SwKrnSamples_' p) (krnSamples_' p))
              \<lparr>ensureFinalized := Finalized\<rparr>) \<and>
         (all_nonempty p \<and> any_triggers p \<longrightarrow> make_view p = Some (Inl LogicError)) \<and>
         (all_nonempty p \<and> \<not> any_triggers p \<longrightarrow>
            make_view p = Some (Inr ((Params_init (SwPcwnSamples_' p) (pcwnSamples_' p)
              (SwKrwSamples_' p) (krwSamples_' p) (SwKrnSamples_' p) (krnSamples_' p))
              \<lparr>ensureFinalized := Finalized\<rparr>)))"
proof -
  let ?i = "Params_init (SwPcwnSamples_' p) (pcwnSamples_' p) (SwKrwSamples_' p)
             (krwSamples_' p) (SwKrnSamples_' p) (krnSamples_' p)"
  have eq: "?i\<lparr>ensureFinalized := Finalized\<rparr> = p"
    using Params_init_fields [of p] assms by simp
  note mv = make_view_as_finalize [OF assms]
  have 1: "make_view p = finalize View ?i" by (rule make_view_Finalized [OF assms])
  have 2: "ensureFinalized ?i = Unfinalized" by simp
  have 3: "\<forall>v. make_view p = Some (Inr v) \<longrightarrow> v = ?i\<lparr>ensureFinalized := Finalized\<rparr>"
    using revertSamplingPoints_View_same [of p] by (simp add: mv eq)
  have 4: "all_nonempty p \<and> any_triggers p \<longrightarrow> make_view p = Some (Inl LogicError)"
    by (simp add: mv revertSamplingPoints_View_nonempty)
  have 5: "all_nonempty p \<and> \<not> any_triggers p \<longrightarrow>
      make_view p = Some (Inr (?i\<lparr>ensureFinalized := Finalized\<rparr>))"
    by (simp add: mv revertSamplingPoints_View_nonempty eq)
  from 1 2 3 4 5 show ?thesis by blast
qed

text \<open>
  A source in which no pair passes both tests, and a source whose third pair does (setters
  were called on it after \<open>finalize\<close>).
\<close>

theorem C7_witness:
  "(let p = \<lparr>ensureFinalized = Finalized,
         SwPcwnSamples_' = [0, 0.5, 1], SwKrwSamples_' = [0, 0.5, 1], SwKrnSamples_' = [0, 1],
         pcwnSamples_' = [0, 1, 2], krwSamples_' = [0, 0.3, 1], krnSamples_' = [1, 0]\<rparr>;
        q = \<lparr>ensureFinalized = Finalized,
         SwPcwnSamples_' = [0, 0.5, 1], SwKrwSamples_' = [0, 0.5, 1], SwKrnSamples_' = [1, 0],
         pcwnSamples_' = [0, 1, 2], krwSamples_' = [0, 0.3, 1], krnSamples_' = [0, -1]\<rparr> in
    ensureFinalized p = Finalized \<and> all_nonempty p \<and> \<not> any_triggers p \<and>
    make_view p = Some (Inr p) \<and>
    ensureFinalized q = Finalized \<and> all_nonempty q \<and> any_triggers q \<and>
    make_view q = Some (Inl LogicError))"
proof -
  let ?a = "\<lparr>ensureFinalized = Finalized,
         SwPcwnSamples_' = [0, 0.5, 1], SwKrwSamples_' = [0, 0.5, 1], SwKrnSamples_' = [0, 1],
         pcwnSamples_' = [0, 1, 2], krwSamples_' = [0, 0.3, 1], krnSamples_' = [1, 0]\<rparr>"
  let ?b = "\<lparr>ensureFinalized = Finalized,
         SwPcwnSamples_' = [0, 0.5, 1], SwKrwSamples_' = [0, 0.5, 1], SwKrnSamples_' = [1, 0],
         pcwnSamples_' = [0, 1, 2], krwSamples_' = [0, 0.3, 1], krnSamples_' = [0, -1]\<rparr>"
  have a: "ensureFinalized ?a = Finalized" "all_nonempty ?a \<and> \<not> any_triggers ?a"
    by (simp_all add: all_nonempty_def any_triggers_def triggers_def)
  have b: "ensureFinalized ?b = Finalized" "all_nonempty ?b \<and> any_triggers ?b"
    by (simp_all add: all_nonempty_def any_triggers_def triggers_def)
  from C7_make_view_runs_finalize
    [OF a(1), THEN conjunct2, THEN conjunct2, THEN conjunct2, THEN conjunct2, THEN mp, OF a(2)]
  have "make_view ?a = Some (Inr ?a)" by (simp add: Params_init_def)
  moreover from C7_make_view_runs_finalize
    [OF b(1), THEN conjunct2, THEN conjunct2, THEN conjunct2, THEN conjunct1, THEN mp, OF b(2)]
  have "make_view ?b = Some (Inl LogicError)" .
  ultimately show ?thesis using a b by (simp add: Let_def)
qed

text \<open>
  C7 as the spec states it (the construction of the view performs no guard transition and
  no reorder decision) fails: the view of a finalized owning table is what \<open>finalize\<close>
  returns on the freshly initialised table, it is not that freshly initialised table, its
  guard has gone from not finalized to finalized, and the constructor that \<open>make_view\<close>
  calls decides on the order of the samples (here it throws).
\<close>

theorem C7_counterexample:
  "finalize Owning (Params_init [1, 0.5, 0] [2, 1, 0] [0, 0.5, 1] [0, 0.3, 1] [0, 1] [1, 0])
     = Some (Inr \<lparr>ensureFinalized = Finalized,
         SwPcwnSamples_' = [0, 0.5, 1], SwKrwSamples_' = [0, 0.5, 1], SwKrnSamples_' = [0, 1],
         pcwnSamples_' = [0, 1, 2], krwSamples_' = [0, 0.3, 1], krnSamples_' = [1, 0]\<rparr>) \<and>
   make_view \<lparr>ensureFinalized = Finalized,
         SwPcwnSamples_' = [0, 0.5, 1], SwKrwSamples_' = [0, 0.5, 1], SwKrnSamples_' = [0, 1],
         pcwnSamples_' = [0, 1, 2], krwSamples_' = [0, 0.3, 1], krnSamples_' = [1, 0]\<rparr>
     = finalize View (Params_init [0, 0.5, 1] [0, 1, 2] [0, 0.5, 1] [0, 0.3, 1] [0, 1] [1, 0]) \<and>
   make_view \<lparr>ensureFinalized = Finalized,
         SwPcwnSamples_' = [0, 0.5, 1], SwKrwSamples_' = [0, 0.5, 1], SwKrnSamples_' = [0, 1],
         pcwnSamples_' = [0, 1, 2], krwSamples_' = [0, 0.3, 1], krnSamples_' = [1, 0]\<rparr>
     \<noteq> Some (Inr (Params_init [0, 0.5, 1] [0, 1, 2] [0, 0.5, 1] [0, 0.3, 1] [0, 1] [1, 0])) \<and>
   ensureFinalized (Params_init [0, 0.5, 1] [0, 1, 2] [0, 0.5, 1] [0, 0.3, 1] [0, 1] [1, 0])
     = Unfinalized \<and>
   map_option (map_sum id ensureFinalized) (make_view \<lparr>ensureFinalized = Finalized,
         SwPcwnSamples_' = [0, 0.5, 1], SwKrwSamples_' = [0, 0.5, 1], SwKrnSamples_' = [0, 1],
         pcwnSamples_' = [0, 1, 2], krwSamples_' = [0, 0.3, 1], krnSamples_' = [1, 0]\<rparr>)
     = Some (Inr Finalized) \<and>
   Params_ctor View [1, 0] [0, -1] [0, 1] [0, 1] [0, 1] [0, 1] = Some (Inl LogicError)"
  by (simp add: make_view_def Params_ctor_def make_view_of_def SwPcwnSamples_def
        pcwnSamples_def SwKrwSamples_def krwSamples_def SwKrnSamples_def krnSamples_def
        guarded_def EnsureFinalized_check_def finalize_def EnsureFinalized_finalize_def
        EnsureFinalized_ctor_def Params_init_def revertSamplingPoints_def revertIfReversed_def
        swapOrderIfPossibleThrowOtherwise_'_def swap_loop.simps)

text \<open>
  C8: within each pair the two sequences have the same length, and every operation keeps
  it so: the default constructor establishes it with empty sequences; a setter called with
  two sequences of one length stores them, which re-establishes it; \<open>finalize\<close>, the
  six-argument constructor (called with aligned pairs) and \<open>make_view\<close> preserve it
  whenever they return a table.
\<close>

theorem C8_pairs_stay_aligned:
  "pairs_aligned Params_default \<and>
   (length sw = length vals \<longrightarrow>
      setPcnwSamples sw vals p = Inr (p\<lparr>SwPcwnSamples_' := sw, pcwnSamples_' := vals\<rparr>) \<and>
      setKrwSamples sw vals p = Inr (p\<lparr>SwKrwSamples_' := sw, krwSamples_' := vals\<rparr>) \<and>
      setKrnSamples sw vals p = Inr (p\<lparr>SwKrnSamples_' := sw, krnSamples_' := vals\<rparr>) \<and>
      (pairs_aligned p \<longrightarrow>
         pairs_aligned (p\<lparr>SwPcwnSamples_' := sw, pcwnSamples_' := vals\<rparr>) \<and>
         pairs_aligned (p\<lparr>SwKrwSamples_' := sw, krwSamples_' := vals\<rparr>) \<and>
         pairs_aligned (p\<lparr>SwKrnSamples_' := sw, krnSamples_' := vals\<rparr>))) \<and>
   (pairs_aligned q \<and> finalize m q = Some (Inr q') \<longrightarrow> pairs_aligned q') \<and>
   (length a = length b \<and> length c = length d \<and> length e = length f \<and>
      Params_ctor m a b c d e f = Some (Inr r) \<longrightarrow> pairs_aligned r) \<and>
   (pairs_aligned t \<and> make_view t = Some (Inr v) \<longrightarrow> pairs_aligned v)"
proof (intro conjI impI)
  show "pairs_aligned Params_default"
    by (simp add: Params_default_def pairs_aligned_def)
next
  assume l: "length sw = length vals"
  show "setPcnwSamples sw vals p = Inr (p\<lparr>SwPcwnSamples_' := sw, pcwnSamples_' := vals\<rparr>)"
    by (rule setters_result [OF l])
  show "setKrwSamples sw vals p = Inr (p\<lparr>SwKrwSamples_' := sw, krwSamples_' := vals\<rparr>)"
    by (rule setters_result [OF l])
  show "setKrnSamples sw vals p = Inr (p\<lparr>SwKrnSamples_' := sw, krnSamples_' := vals\<rparr>)"
    by (rule setters_result [OF l])
  assume "pairs_aligned p"
  with l show "pairs_aligned (p\<lparr>SwPcwnSamples_' := sw, pcwnSamples_' := vals\<rparr>)"
    "pairs_aligned (p\<lparr>SwKrwSamples_' := sw, krwSamples_' := vals\<rparr>)"
    "pairs_aligned (p\<lparr>SwKrnSamples_' := sw, krnSamples_' := vals\<rparr>)"
    by (simp_all add: pairs_aligned_def)
next
  assume "pairs_aligned q \<and> finalize m q = Some (Inr q')"
  then show "pairs_aligned q'" using finalize_keeps_preds(1) [of m q q'] by simp
next
  assume "length a = length b \<and> length c = length d \<and> length e = length f \<and>
      Params_ctor m a b c d e f = Some (Inr r)"
  then show "pairs_aligned r"
    using finalize_keeps_preds(1) [of m "Params_init a b c d e f" r]
    by (simp add: Params_ctor_def)
next
  assume "pairs_aligned t \<and> make_view t = Some (Inr v)"
  then show "pairs_aligned v" using make_view_keeps_aligned [of t v] by simp
qed

theorem C8_witness:
  "(let p0 = Params_init [1, 0.5, 0] [2, 1, 0] [0, 0.5, 1] [0, 0.3, 1] [0, 1] [1, 0];
        p1 = \<lparr>ensureFinalized = Finalized,
         SwPcwnSamples_' = [0, 0.5, 1], SwKrwSamples_' = [0, 0.5, 1], SwKrnSamples_' = [0, 1],
         pcwnSamples_' = [0, 1, 2], krwSamples_' = [0, 0.3, 1], krnSamples_' = [1, 0]\<rparr> in
    length [3, 2, 1 :: real] = length [0, 1, 4 :: real] \<and> pairs_aligned p0 \<and>
    setPcnwSamples [3, 2, 1] [0, 1, 4] p0 = Inr (p0\<lparr>SwPcwnSamples_' := [3, 2, 1], pcwnSamples_' := [0, 1, 4]\<rparr>) \<and>
    setKrwSamples [3, 2, 1] [0, 1, 4] p0 = Inr (p0\<lparr>SwKrwSamples_' := [3, 2, 1], krwSamples_' := [0, 1, 4]\<rparr>) \<and>
    setKrnSamples [3, 2, 1] [0, 1, 4] p0 = Inr (p0\<lparr>SwKrnSamples_' := [3, 2, 1], krnSamples_' := [0, 1, 4]\<rparr>) \<and>
    pairs_aligned (p0\<lparr>SwPcwnSamples_' := [3, 2, 1], pcwnSamples_' := [0, 1, 4]\<rparr>) \<and>
    pairs_aligned (p0\<lparr>SwKrwSamples_' := [3, 2, 1], krwSamples_' := [0, 1, 4]\<rparr>) \<and>
    pairs_aligned (p0\<lparr>SwKrnSamples_' := [3, 2, 1], krnSamples_' := [0, 1, 4]\<rparr>) \<and>
    finalize Owning p0 = Some (Inr p1) \<and>
    Params_ctor Owning [1, 0.5, 0] [2, 1, 0] [0, 0.5, 1] [0, 0.3, 1] [0, 1] [1, 0] = Some (Inr p1) \<and>
    make_view p1 = Some (Inr p1) \<and> pairs_aligned p1)"
proof -
  let ?a = "Params_init [1, 0.5, 0] [2, 1, 0] [0, 0.5, 1] [0, 0.3, 1] [0, 1] [1, 0]"
  let ?b = "\<lparr>ensureFinalized = Finalized,
         SwPcwnSamples_' = [0, 0.5, 1], SwKrwSamples_' = [0, 0.5, 1], SwKrnSamples_' = [0, 1],
         pcwnSamples_' = [0, 1, 2], krwSamples_' = [0, 0.3, 1], krnSamples_' = [1, 0]\<rparr>"
  have c: "Params_ctor Owning [1, 0.5, 0] [2, 1, 0] [0, 0.5, 1] [0, 0.3, 1] [0, 1] [1, 0]
      = Some (Inr ?b)"
    unfolding Params_ctor_def by (rule finalize_example)
  have al: "pairs_aligned ?a" by simp
  from C8_pairs_stay_aligned
    [of "[3, 2, 1]" "[0, 1, 4]" ?a ?a Owning ?b "[1, 0.5, 0]" "[2, 1, 0]" "[0, 0.5, 1]"
        "[0, 0.3, 1]" "[0, 1]" "[1, 0]" ?b ?b ?b]
    finalize_example make_view_example c al
  show ?thesis by (simp add: Let_def)
qed

text \<open>
  C9, as the code has it. On a table with aligned pairs: when the three saturation
  sequences are not empty, \<open>finalize\<close> never reads outside a sequence, on either storage.
  On owning storage the condition is exact: \<open>finalize\<close> on a not yet finalized table
  reads outside a sequence exactly when one of the saturation sequences is empty. On view
  storage it is not: with an empty saturation sequence \<open>finalize\<close> either reads outside
  it or has thrown the logic error for an earlier pair before reading it. Finalizing the
  default-constructed table reads outside a sequence.
\<close>

theorem C9_finalize_out_of_bounds:
  "(pairs_aligned p \<and> nonempty_sw p \<longrightarrow> finalize m p \<noteq> Some (Inl OutOfBounds)) \<and>
   (ensureFinalized q = Unfinalized \<and> pairs_aligned q \<and> counter_fits q \<longrightarrow>
      (finalize Owning q = Some (Inl OutOfBounds)) = (\<not> nonempty_sw q)) \<and>
   (ensureFinalized t = Unfinalized \<and> pairs_aligned t \<and> \<not> nonempty_sw t \<longrightarrow>
      finalize View t = Some (Inl OutOfBounds) \<or> finalize View t = Some (Inl LogicError)) \<and>
   finalize m Params_default = Some (Inl OutOfBounds)"
proof (intro conjI impI)
  assume "pairs_aligned p \<and> nonempty_sw p"
  then show "finalize m p \<noteq> Some (Inl OutOfBounds)" by (simp add: finalize_in_bounds)
next
  assume a: "ensureFinalized q = Unfinalized \<and> pairs_aligned q \<and> counter_fits q"
  show "(finalize Owning q = Some (Inl OutOfBounds)) = (\<not> nonempty_sw q)"
  proof (cases "nonempty_sw q")
    case True
    with a finalize_in_bounds [of q Owning] show ?thesis by simp
  next
    case False
    with a revertSamplingPoints_Owning_empty [of "q\<lparr>ensureFinalized := Finalized\<rparr>"]
    show ?thesis by (simp add: finalize_Unfinalized)
  qed
next
  assume "ensureFinalized t = Unfinalized \<and> pairs_aligned t \<and> \<not> nonempty_sw t"
  with revertSamplingPoints_View_empty [of "t\<lparr>ensureFinalized := Finalized\<rparr>"]
  show "finalize View t = Some (Inl OutOfBounds) \<or> finalize View t = Some (Inl LogicError)"
    by (simp add: finalize_Unfinalized)
next
  show "finalize m Params_default = Some (Inl OutOfBounds)"
    by (simp add: finalize_def Params_default_def EnsureFinalized_ctor_def
        EnsureFinalized_finalize_def revertSamplingPoints_def revertIfReversed_def)
qed

theorem C9_witness:
  "(let p = Params_init [1, 0.5, 0] [2, 1, 0] [0, 0.5, 1] [0, 0.3, 1] [0, 1] [1, 0];
        q = Params_init [1, 0.5, 0] [2, 1, 0] [] [] [0, 1] [1, 0];
        t = Params_init [1, 0.5, 0] [2, 1, 0] [] [] [0, 1] [1, 0];
        u = Params_init [0, 0.5, 1] [2, 1, 0] [] [] [0, 1] [1, 0] in
    pairs_aligned p \<and> nonempty_sw p \<and> finalize Owning p \<noteq> Some (Inl OutOfBounds) \<and>
    finalize View p \<noteq> Some (Inl OutOfBounds) \<and>
    ensureFinalized q = Unfinalized \<and> pairs_aligned q \<and> counter_fits q \<and> \<not> nonempty_sw q \<and>
    finalize Owning q = Some (Inl OutOfBounds) \<and>
    ensureFinalized p = Unfinalized \<and> counter_fits p \<and>
    ensureFinalized t = Unfinalized \<and> pairs_aligned t \<and> \<not> nonempty_sw t \<and>
    finalize View t = Some (Inl LogicError) \<and>
    ensureFinalized u = Unfinalized \<and> pairs_aligned u \<and> \<not> nonempty_sw u \<and>
    finalize View u = Some (Inl OutOfBounds) \<and>
    finalize Owning Params_default = Some (Inl OutOfBounds) \<and>
    finalize View Params_default = Some (Inl OutOfBounds))"
proof -
  let ?a = "Params_init [1, 0.5, 0] [2, 1, 0] [0, 0.5, 1] [0, 0.3, 1] [0, 1] [1, 0]"
  let ?b = "Params_init [1, 0.5, 0] [2, 1, 0] [] [] [0, 1] [1, 0]"
  let ?c = "Params_init [0, 0.5, 1] [2, 1, 0] [] [] [0, 1] [1, 0]"
  have a: "pairs_aligned ?a" "nonempty_sw ?a" "ensureFinalized ?a = Unfinalized"
    "counter_fits ?a"
    by (simp_all add: counter_fits_def Params_init_def pairs_aligned_def nonempty_sw_def
        EnsureFinalized_ctor_def)
  have b: "ensureFinalized ?b = Unfinalized" "pairs_aligned ?b" "counter_fits ?b"
    "\<not> nonempty_sw ?b"
    by (simp_all add: counter_fits_def Params_init_def pairs_aligned_def nonempty_sw_def
        EnsureFinalized_ctor_def)
  have c: "ensureFinalized ?c = Unfinalized" "pairs_aligned ?c" "\<not> nonempty_sw ?c"
    by simp_all
  have tl: "finalize View ?b = Some (Inl LogicError)"
    by (simp add: finalize_def EnsureFinalized_finalize_def EnsureFinalized_ctor_def
        Params_init_def revertSamplingPoints_def revertIfReversed_def
        swapOrderIfPossibleThrowOtherwise_'_def)
  have uo: "finalize View ?c = Some (Inl OutOfBounds)"
    by (simp add: finalize_def EnsureFinalized_finalize_def EnsureFinalized_ctor_def
        Params_init_def revertSamplingPoints_def revertIfReversed_def
        swapOrderIfPossibleThrowOtherwise_'_def)
  note t1 = C9_finalize_out_of_bounds [of ?a Owning ?b ?b]
  note t2 = C9_finalize_out_of_bounds [of ?a View ?a ?c]
  from t1 t2 a b c tl uo show ?thesis by (simp add: Let_def)
qed

text \<open>
  C9 as stated fails on view storage: here the second and third saturation sequences are
  empty, but the first pair passes both tests, \<open>finalize\<close> throws the logic error and
  the empty sequences are never read.
\<close>

theorem C9_counterexample:
  "pairs_aligned (Params_init [1, 0] [0, -1] [] [] [] []) \<and>
   \<not> nonempty_sw (Params_init [1, 0] [0, -1] [] [] [] []) \<and>
   finalize View (Params_init [1, 0] [0, -1] [] [] [] []) = Some (Inl LogicError) \<and>
   finalize View (Params_init [1, 0] [0, -1] [] [] [] []) \<noteq> Some (Inl OutOfBounds)"
  by (simp add: finalize_def EnsureFinalized_finalize_def EnsureFinalized_ctor_def
      Params_init_def revertSamplingPoints_def revertIfReversed_def
      swapOrderIfPossibleThrowOtherwise_'_def pairs_aligned_def nonempty_sw_def)

text \<open>
  C10: on owning storage the three reorder statements of \<open>finalize\<close> are idempotent:
  whenever they have returned a table, they return that table unchanged when they run on
  it again, since none of its pairs passes both tests (a reversed pair fails the first, an
  untouched pair fails the same test as before). On a table with aligned, non-empty pairs
  whose sizes the loop counter reaches they do return a table.
\<close>

theorem C10_reorder_idempotent:
  "(pairs_aligned p \<and> nonempty_sw p \<and> counter_fits p \<longrightarrow>
      (\<exists>p1. revertSamplingPoints Owning p = Some (Inr p1))) \<and>
   (\<forall>p1. revertSamplingPoints Owning p = Some (Inr p1) \<longrightarrow>
      revertSamplingPoints Owning p1 = Some (Inr p1) \<and> \<not> any_triggers p1)"
proof (intro conjI impI allI)
  assume "pairs_aligned p \<and> nonempty_sw p \<and> counter_fits p"
  then have "revertSamplingPoints Owning p = Some (Inr (reverted p))"
    by (simp add: revertSamplingPoints_Owning)
  then show "\<exists>p1. revertSamplingPoints Owning p = Some (Inr p1)" ..
next
  fix p1 assume r: "revertSamplingPoints Owning p = Some (Inr p1)"
  show "revertSamplingPoints Owning p1 = Some (Inr p1)"
    by (rule revertSamplingPoints_settled(1) [OF r])
  show "\<not> any_triggers p1"
    by (rule revertSamplingPoints_settled(2) [OF r])
qed

theorem C10_witness:
  "(let p = Params_init [1, 0.5, 0] [2, 1, 0] [0, 0.5, 1] [0, 0.3, 1] [1, 0] [5, 3];
        p1 = \<lparr>ensureFinalized = Unfinalized,
         SwPcwnSamples_' = [0, 0.5, 1], SwKrwSamples_' = [0, 0.5, 1], SwKrnSamples_' = [1, 0],
         pcwnSamples_' = [0, 1, 2], krwSamples_' = [0, 0.3, 1], krnSamples_' = [5, 3]\<rparr> in
    pairs_aligned p \<and> nonempty_sw p \<and> counter_fits p \<and>
    revertSamplingPoints Owning p = Some (Inr p1) \<and>
    revertSamplingPoints Owning p1 = Some (Inr p1))"
proof -
  let ?a = "Params_init [1, 0.5, 0] [2, 1, 0] [0, 0.5, 1] [0, 0.3, 1] [1, 0] [5, 3]"
  let ?b = "\<lparr>ensureFinalized = Unfinalized,
         SwPcwnSamples_' = [0, 0.5, 1], SwKrwSamples_' = [0, 0.5, 1], SwKrnSamples_' = [1, 0],
         pcwnSamples_' = [0, 1, 2], krwSamples_' = [0, 0.3, 1], krnSamples_' = [5, 3]\<rparr>"
  have a: "pairs_aligned ?a \<and> nonempty_sw ?a \<and> counter_fits ?a"
    by (simp add: counter_fits_def Params_init_def pairs_aligned_def nonempty_sw_def)
  from C10_reorder_idempotent [of ?a, THEN conjunct1, THEN mp, OF a]
  obtain p1 where p1: "revertSamplingPoints Owning ?a = Some (Inr p1)" ..
  from C10_reorder_idempotent [of ?a, THEN conjunct2, THEN spec, THEN mp, OF p1]
  have "revertSamplingPoints Owning p1 = Some (Inr p1)" ..
  moreover from p1 revertSamplingPoints_example have "p1 = ?b" by simp
  ultimately show ?thesis using a revertSamplingPoints_example by (simp add: Let_def)
qed

end
